theory Spec2Isabelle
  imports Complex_Main
begin

section \<open>Array cells: floats with absent values\<close>

text \<open>
  The arrays of \<^verbatim>\<open>vito.py\<close> are numpy/xarray float arrays. A cell is modelled as an
  exact real number (\<open>Fin\<close>), one of the two infinities (\<open>Infty True\<close> is \<open>+inf\<close>,
  \<open>Infty False\<close> is \<open>-inf\<close>) or \<open>NaN\<close>, which is what \<^verbatim>\<open>Dataset.where\<close> writes into a
  masked (absent) cell. Arithmetic follows IEEE 754 on these four kinds of value;
  rounding, overflow and the sign of zero are left out (a zero divisor counts as \<open>+0\<close>).
\<close>

datatype fval = Fin real | Infty bool | NaN

fun fadd :: "fval \<Rightarrow> fval \<Rightarrow> fval" where
  "fadd NaN y = NaN"
| "fadd x NaN = NaN"
| "fadd (Fin a) (Fin b) = Fin (a + b)"
| "fadd (Fin a) (Infty t) = Infty t"
| "fadd (Infty s) (Fin b) = Infty s"
| "fadd (Infty s) (Infty t) = (if s = t then Infty s else NaN)"

fun fmul :: "fval \<Rightarrow> fval \<Rightarrow> fval" where
  "fmul NaN y = NaN"
| "fmul x NaN = NaN"
| "fmul (Fin a) (Fin b) = Fin (a * b)"
| "fmul (Fin a) (Infty t) = (if a = 0 then NaN else Infty (t = (0 < a)))"
| "fmul (Infty s) (Fin b) = (if b = 0 then NaN else Infty (s = (0 < b)))"
| "fmul (Infty s) (Infty t) = Infty (s = t)"

fun fdiv :: "fval \<Rightarrow> fval \<Rightarrow> fval" where
  "fdiv NaN y = NaN"
| "fdiv x NaN = NaN"
| "fdiv (Fin a) (Fin b) =
     (if b = 0 then (if a = 0 then NaN else Infty (0 < a)) else Fin (a / b))"
| "fdiv (Fin a) (Infty t) = Fin 0"
| "fdiv (Infty s) (Fin b) = Infty (s = (0 \<le> b))"
| "fdiv (Infty s) (Infty t) = NaN"

text \<open>The exceptions of Python that the modelled code can raise.\<close>

datatype error = OSError | KeyError | ValueError | TypeError | IndexError | AttributeError

section \<open>Strings\<close>

text \<open>\<^verbatim>\<open>s.split(c)\<close>: the pieces of \<open>s\<close> between the occurrences of \<open>c\<close>; never empty.\<close>

fun split_on :: "char \<Rightarrow> string \<Rightarrow> string list" where
  "split_on c [] = [[]]"
| "split_on c (x # xs) =
     (if x = c then [] # split_on c xs
      else (case split_on c xs of
              [] \<Rightarrow> [[x]]
            | w # ws \<Rightarrow> (x # w) # ws))"

text \<open>\<^verbatim>\<open>xs[-1]\<close> and \<^verbatim>\<open>xs[-2]\<close>, which raise IndexError on a list that is too short.\<close>

definition last_item :: "'a list \<Rightarrow> error + 'a" where
  "last_item xs = (if xs = [] then Inl IndexError else Inr (last xs))"

definition last_but_one :: "'a list \<Rightarrow> error + 'a" where
  "last_but_one xs =
     (if length xs < 2 then Inl IndexError else Inr (xs ! (length xs - 2)))"

text \<open>\<^verbatim>\<open>'E_' in key\<close>: the substring test.\<close>

fun is_infix :: "string \<Rightarrow> string \<Rightarrow> bool" where
  "is_infix p [] = (p = [])"
| "is_infix p (x # xs) = (take (length p) (x # xs) = p \<or> is_infix p xs)"

section \<open>The inventory dataset\<close>

text \<open>
  An \<^verbatim>\<open>xarray.Dataset\<close> read from the VITO file, with the dimensions \<open>time\<close>, \<open>lat\<close> and
  \<open>lon\<close>: the coordinates \<open>lon\<close> and \<open>lat\<close>, the month of every step of the \<open>time\<close> axis
  (\<^verbatim>\<open>ds['time.month']\<close>), the global attributes, and the data variables by name. A
  variable has dimensions (time, lat, lon) and carries its \<^verbatim>\<open>MissingValue\<close> attribute.
  A dataset without the dimension \<open>lon\<close> or \<open>lat\<close>, on which \<^verbatim>\<open>ds.sizes\<close> and
  \<^verbatim>\<open>ds.coords\<close> raise, is not a value of this type.

  A global attribute is kept as \<^verbatim>\<open>float\<close> sees it: a number or a text that reads as the
  number \<open>x\<close>, a text that does not read as a number (\<^verbatim>\<open>float\<close> raises ValueError), or a
  value of a type that \<^verbatim>\<open>float\<close> does not take (TypeError).
\<close>

datatype attr = Numeric real | NonNumericText | OtherType

definition to_float :: "attr \<Rightarrow> error + real" where
  "to_float a =
     (case a of
        Numeric x \<Rightarrow> Inr x
      | NonNumericText \<Rightarrow> Inl ValueError
      | OtherType \<Rightarrow> Inl TypeError)"

type_synonym field = "fval list list"

record variable =
  vals :: "field list"
  MissingValue :: fval

record dataset =
  lon :: "real list"
  lat :: "real list"
  time_month :: "nat list"
  attrs :: "string \<rightharpoonup> attr"
  data_vars :: "string \<rightharpoonup> variable"

text \<open>\<^verbatim>\<open>ds[key]\<close> and \<^verbatim>\<open>attrs[key]\<close> raise KeyError on a key that is not there.\<close>

definition getitem :: "(string \<rightharpoonup> 'a) \<Rightarrow> string \<Rightarrow> error + 'a" where
  "getitem m key = (case m key of None \<Rightarrow> Inl KeyError | Some v \<Rightarrow> Inr v)"

section \<open>\<^verbatim>\<open>calc_area\<close>: the area of the inventory's cells\<close>

text \<open>
  \<^verbatim>\<open>np.linspace(start, stop, num)\<close> with \<open>num\<close> samples, the end point included: the
  step is \<open>(stop - start) / (num - 1)\<close> and the last sample is set to \<open>stop\<close>.
\<close>

definition linspace :: "real \<Rightarrow> real \<Rightarrow> nat \<Rightarrow> real list" where
  "linspace start stop num =
     (if num = 1 then [start]
      else map (\<lambda>k. if k = num - 1 then stop
                     else real k * ((stop - start) / real (num - 1)) + start)
               [0..<num])"

definition EARTH_RADIUS :: real where
  "EARTH_RADIUS = 6370000"

definition Rad_per_Deg :: real where
  "Rad_per_Deg = pi / 180"

text \<open>
  The body of the double loop of \<^verbatim>\<open>calc_area\<close>, for the cell between the
  longitude bounds \<open>xlon1\<close>, \<open>xlon2\<close> and the latitude bounds \<open>ylat1\<close>, \<open>ylat2\<close>.
\<close>

definition cap_area :: "real \<Rightarrow> real" where
  "cap_area ylat =
     (let cap_ht = EARTH_RADIUS * (1 - sin (ylat * Rad_per_Deg))
      in 2 * pi * EARTH_RADIUS * cap_ht)"

definition cell_area :: "real \<Rightarrow> real \<Rightarrow> real \<Rightarrow> real \<Rightarrow> real" where
  "cell_area xlon1 xlon2 ylat1 ylat2 =
     (let cap1_area = cap_area ylat1;
          cap2_area = cap_area ylat2
      in \<bar>cap1_area - cap2_area\<bar> * \<bar>xlon1 - xlon2\<bar> / 360)"

text \<open>
  The loop over \<open>j\<close> (rows, latitude) and \<open>i\<close> (columns, longitude). With
  \<^verbatim>\<open>np.meshgrid\<close>, \<^verbatim>\<open>lon_bounds2d[j, i]\<close> is \<open>lon_b ! i\<close> and \<^verbatim>\<open>lat_bounds2d[j, i]\<close> is
  \<open>lat_b ! j\<close>; \<open>ydim\<close> and \<open>xdim\<close> are one less than the numbers of bounds.
\<close>

definition area_loop :: "real list \<Rightarrow> real list \<Rightarrow> real list list" where
  "area_loop lon_b lat_b =
     (let ydim = length lat_b - 1;
          xdim = length lon_b - 1
      in map (\<lambda>j. map (\<lambda>i. cell_area (lon_b ! i) (lon_b ! (i + 1))
                                       (lat_b ! j) (lat_b ! (j + 1)))
                       [0..<xdim])
             [0..<ydim])"

record emi_grid =
  emi_lon_b :: "real list"
  emi_lat_b :: "real list"
  emi_area :: "real list list"

text \<open>\<^verbatim>\<open>float(attrs[key])\<close>: KeyError on a missing attribute, then the errors of \<^verbatim>\<open>float\<close>.\<close>

definition float_attr :: "dataset \<Rightarrow> string \<Rightarrow> error + real" where
  "float_attr ds key =
     (case getitem (attrs ds) key of Inl e \<Rightarrow> Inl e | Inr a \<Rightarrow> to_float a)"

text \<open>
  \<^verbatim>\<open>calc_area\<close>: the bounds run from the west to the east bound and from the north to
  the south bound of the grid, in as many steps as the dataset has columns and rows.
  The bounds are not checked in any way.
\<close>

definition calc_area :: "dataset \<Rightarrow> error + emi_grid" where
  "calc_area ds =
     (case float_attr ds ''grid_westb'' of Inl e \<Rightarrow> Inl e | Inr westb \<Rightarrow>
      case float_attr ds ''grid_eastb'' of Inl e \<Rightarrow> Inl e | Inr eastb \<Rightarrow>
      case float_attr ds ''grid_northb'' of Inl e \<Rightarrow> Inl e | Inr northb \<Rightarrow>
      case float_attr ds ''grid_southb'' of Inl e \<Rightarrow> Inl e | Inr southb \<Rightarrow>
        (let lon_b = linspace westb eastb (length (lon ds) + 1);
             lat_b = linspace northb southb (length (lat ds) + 1)
         in Inr \<lparr>emi_lon_b = lon_b, emi_lat_b = lat_b,
                 emi_area = area_loop lon_b lat_b\<rparr>))"

section \<open>\<^verbatim>\<open>get_ds\<close>: masking, unit conversion and the hourly table\<close>

text \<open>
  \<^verbatim>\<open>ds.where(ds != MissingValue)\<close> keeps a cell that differs from the sentinel and
  writes NaN into every other cell, in every variable of the dataset.
\<close>

definition mask_cell :: "fval \<Rightarrow> fval \<Rightarrow> fval" where
  "mask_cell mv v = (if v \<noteq> mv then v else NaN)"

definition map_cells :: "(fval \<Rightarrow> fval) \<Rightarrow> variable \<Rightarrow> variable" where
  "map_cells f v = v\<lparr>vals := map (map (map f)) (vals v)\<rparr>"

definition where_not_missing :: "fval \<Rightarrow> dataset \<Rightarrow> dataset" where
  "where_not_missing mv ds =
     ds\<lparr>data_vars := (\<lambda>key. map_option (map_cells (mask_cell mv)) (data_vars ds key))\<rparr>"

text \<open>
  \<^verbatim>\<open>ds.where(ds['time.month'] == mm, drop=True)\<close> keeps the time steps of month
  \<open>mm\<close> and drops the others, in every variable.
\<close>

definition select_steps :: "nat \<Rightarrow> nat list \<Rightarrow> 'a list \<Rightarrow> 'a list" where
  "select_steps mm months xs = map snd (filter (\<lambda>(m, x). m = mm) (zip months xs))"

definition where_month :: "nat \<Rightarrow> dataset \<Rightarrow> dataset" where
  "where_month mm ds =
     ds\<lparr>time_month := filter (\<lambda>m. m = mm) (time_month ds),
        data_vars := (\<lambda>key. map_option
           (\<lambda>v. v\<lparr>vals := select_steps mm (time_month ds) (vals v)\<rparr>)
           (data_vars ds key))\<rparr>"

text \<open>
  Arithmetic of a dataset with the area field: every time step of every variable is
  combined cell by cell with the area of its cell, the area a finite number.
\<close>

definition with_area :: "(fval \<Rightarrow> real \<Rightarrow> fval) \<Rightarrow> real list list \<Rightarrow> dataset \<Rightarrow> dataset" where
  "with_area f area ds =
     ds\<lparr>data_vars := (\<lambda>key. map_option
           (\<lambda>v. v\<lparr>vals := map (\<lambda>fld. map2 (\<lambda>row arow. map2 f row arow) fld area) (vals v)\<rparr>)
           (data_vars ds key))\<rparr>"

text \<open>\<^verbatim>\<open>ds*1e15/self.emi_area/(seconds*var_dict[name])\<close>, for one cell.\<close>

definition convert_PM25 :: "nat \<Rightarrow> int \<Rightarrow> fval \<Rightarrow> real \<Rightarrow> fval" where
  "convert_PM25 days mw v a =
     (let seconds = days * 24 * 3600
      in fdiv (fdiv (fmul v (Fin 1000000000000000)) (Fin a)) (Fin (of_int (int seconds * mw))))"

text \<open>\<^verbatim>\<open>ds*1e9/(self.emi_area/1e6)/(hours*var_dict[name])\<close>, for one cell.\<close>

definition convert_mol :: "nat \<Rightarrow> int \<Rightarrow> fval \<Rightarrow> real \<Rightarrow> fval" where
  "convert_mol days mw v a =
     (let hours = days * 24
      in fdiv (fdiv (fmul v (Fin 1000000000)) (fdiv (Fin a) (Fin 1000000))) (Fin (of_int (int hours * mw))))"

text \<open>The conversion chosen by the name of the species; no other name is converted.\<close>

definition convert_units ::
  "nat \<Rightarrow> real list list \<Rightarrow> string \<Rightarrow> (string \<rightharpoonup> int) \<Rightarrow> dataset \<Rightarrow> error + dataset" where
  "convert_units days area name var_dict ds =
     (if name = ''E_PM25'' then
        (case getitem var_dict name of Inl e \<Rightarrow> Inl e
         | Inr mw \<Rightarrow> Inr (with_area (convert_PM25 days mw) area ds))
      else if name \<in> set [''E_NO'', ''E_SO2''] then
        (case getitem var_dict name of Inl e \<Rightarrow> Inl e
         | Inr mw \<Rightarrow> Inr (with_area (convert_mol days mw) area ds))
      else Inr ds)"

subsection \<open>The hourly factor table\<close>

datatype level = DEBUG | INFO | WARNING | ERROR | CRITICAL

type_synonym log = "(level \<times> string) list"

definition kind :: "string list" where
  "kind = [''Fires'', ''Industry'', ''Energy'', ''Residential'', ''Traffic'']"

text \<open>
  \<^verbatim>\<open>table.sum(dim='hour')\<close>: xarray skips NaN when it sums floats, that is, a NaN
  counts as 0.
\<close>

definition nansum :: "fval list \<Rightarrow> fval" where
  "nansum xs = foldl fadd (Fin 0) (map (\<lambda>x. if x = NaN then Fin 0 else x) xs)"

definition column :: "nat \<Rightarrow> fval list list \<Rightarrow> fval list" where
  "column k rows = map (\<lambda>r. r ! k) rows"

text \<open>\<^verbatim>\<open>table/(table.sum(dim='hour')/24)\<close> on a table of 24 rows (hours) and 5 columns.\<close>

definition normalize_table :: "fval list list \<Rightarrow> fval list list" where
  "normalize_table rows =
     (let totals = map (\<lambda>k. nansum (column k rows)) [0..<5]
      in map (\<lambda>r. map2 (\<lambda>x s. fdiv x (fdiv s (Fin 24))) r totals) rows)"

text \<open>
  The \<^verbatim>\<open>try\<close> block of \<^verbatim>\<open>get_ds\<close>. Its argument is what
  \<^verbatim>\<open>np.genfromtxt('./hourly_factor.csv', ...)\<close> gives: an exception, or the rows it has
  parsed, each of the five columns asked for. Building the DataArray with 24 hours and
  five kinds raises ValueError when the rows are not 24. Only OSError is caught: the table
  is then 24 by 5 ones, and one message is logged with \<^verbatim>\<open>logging.info\<close>.
\<close>

definition hourly_table :: "error + fval list list \<Rightarrow> error + log \<times> fval list list" where
  "hourly_table genfromtxt =
     (case genfromtxt of
        Inl OSError \<Rightarrow>
          Inr ([(INFO, replicate 8 CHR '' '' @ ''hourly_factor.csv does not exist, use 1 instead'')],
               replicate 24 (replicate 5 (Fin 1)))
      | Inl e \<Rightarrow> Inl e
      | Inr rows \<Rightarrow>
          (if length rows = 24 \<and> list_all (\<lambda>r. length r = 5) rows
           then Inr ([], normalize_table rows)
           else Inl ValueError))"

subsection \<open>Hourly disaggregation\<close>

text \<open>\<^verbatim>\<open>.squeeze('time')\<close> raises ValueError unless the time axis has length one.\<close>

definition squeeze_time :: "'a list \<Rightarrow> error + 'a" where
  "squeeze_time xs = (case xs of [x] \<Rightarrow> Inr x | _ \<Rightarrow> Inl ValueError)"

fun index_of :: "'a \<Rightarrow> 'a list \<Rightarrow> nat option" where
  "index_of k [] = None"
| "index_of k (x # xs) = (if x = k then Some 0 else map_option Suc (index_of k xs))"

text \<open>\<^verbatim>\<open>table.sel(kind=k)\<close>: the 24 factors of the column labelled \<open>k\<close>.\<close>

definition sel_kind :: "fval list list \<Rightarrow> string \<Rightarrow> error + fval list" where
  "sel_kind table k =
     (case index_of k kind of
        None \<Rightarrow> Inl KeyError
      | Some c \<Rightarrow> Inr (column c table))"

text \<open>
  \<^verbatim>\<open>ds[name] += fld * col\<close>: the accumulator has dimensions (hour, lat, lon), the
  sector field (lat, lon) and the column of factors (hour).
\<close>

definition add_scaled :: "field list \<Rightarrow> field \<Rightarrow> fval list \<Rightarrow> field list" where
  "add_scaled acc fld col =
     map2 (\<lambda>plane t. map2 (\<lambda>row frow. map2 (\<lambda>a v. fadd a (fmul v t)) row frow) plane fld)
          acc col"

text \<open>The loop \<^verbatim>\<open>for k in kind\<close>, with the accumulator \<^verbatim>\<open>ds[name]\<close>.\<close>

fun sum_kinds ::
  "dataset \<Rightarrow> string \<Rightarrow> fval list list \<Rightarrow> string list \<Rightarrow> field list \<Rightarrow> error + field list" where
  "sum_kinds ds prefix table [] acc = Inr acc"
| "sum_kinds ds prefix table (k # ks) acc =
     (case getitem (data_vars ds) (prefix @ ''_'' @ k) of Inl e \<Rightarrow> Inl e | Inr v \<Rightarrow>
      case sel_kind table k of Inl e \<Rightarrow> Inl e | Inr col \<Rightarrow>
      case squeeze_time (vals v) of Inl e \<Rightarrow> Inl e | Inr fld \<Rightarrow>
        sum_kinds ds prefix table ks (add_scaled acc fld col))"

text \<open>\<^verbatim>\<open>np.full((24, len(ds.lat), len(ds.lon)), 0.)\<close>\<close>

definition zeros :: "dataset \<Rightarrow> field list" where
  "zeros ds = replicate 24 (replicate (length (lat ds)) (replicate (length (lon ds)) (Fin 0)))"

text \<open>What \<^verbatim>\<open>get_ds\<close> returns: the 24 hourly fields of its species with their unit,
  and the two-dimensional longitudes and latitudes of the cell centres.\<close>

text \<open>\<^verbatim>\<open>np.meshgrid(xs, ys)\<close>: one row for every \<open>y\<close>, one column for every \<open>x\<close>.\<close>

definition meshgrid :: "'a list \<Rightarrow> 'b list \<Rightarrow> 'a list list \<times> 'b list list" where
  "meshgrid xs ys = (map (\<lambda>y. xs) ys, map (\<lambda>y. map (\<lambda>x. y) xs) ys)"

record emis =
  hourly :: "field list"
  units :: "string option"
  longitude :: "real list list"
  latitude :: "real list list"

definition units_of :: "string \<Rightarrow> string option" where
  "units_of name =
     (if name = ''E_PM25'' then Some ''ug/m3 m/s''
      else if name \<in> set [''E_NO'', ''E_SO2''] then Some ''mol km-2 hr-1''
      else None)"

text \<open>
  \<^verbatim>\<open>get_ds\<close>. Beside the arguments of the source, it takes what the source reads from
  its surroundings: the number \<open>days\<close> of days of the month (a module constant),
  \<^verbatim>\<open>self.emi_area\<close>, and the outcome of reading \<^verbatim>\<open>hourly_factor.csv\<close>. It returns the
  messages it has logged and the variable \<^verbatim>\<open>ds[name]\<close>.
\<close>

definition get_ds ::
  "nat \<Rightarrow> real list list \<Rightarrow> error + fval list list \<Rightarrow>
   dataset \<Rightarrow> string \<Rightarrow> (string \<rightharpoonup> int) \<Rightarrow> nat \<Rightarrow> error + log \<times> emis" where
  "get_ds days area genfromtxt ds name var_dict mm =
     (case last_item (split_on CHR ''_'' name) of Inl e \<Rightarrow> Inl e | Inr sp \<Rightarrow>
      (let varname = (if name = ''E_NO'' then sp @ ''x_Industry'' else sp @ ''_Industry'')
       in case getitem (data_vars ds) varname of Inl e \<Rightarrow> Inl e | Inr ref \<Rightarrow>
          case convert_units days area name var_dict
                 (where_month mm (where_not_missing (MissingValue ref) ds)) of
            Inl e \<Rightarrow> Inl e
          | Inr ds' \<Rightarrow>
          case hourly_table genfromtxt of Inl e \<Rightarrow> Inl e | Inr (lg, table) \<Rightarrow>
          case last_but_one (split_on CHR ''_'' varname) of Inl e \<Rightarrow> Inl e | Inr prefix \<Rightarrow>
          case sum_kinds ds' prefix table kind (zeros ds') of Inl e \<Rightarrow> Inl e | Inr acc \<Rightarrow>
            (let (lon2d, lat2d) = meshgrid (lon ds') (lat ds')
             in Inr (lg, \<lparr>hourly = acc, units = units_of name,
                          longitude = lon2d, latitude = lat2d\<rparr>))))"

section \<open>\<^verbatim>\<open>read_vito\<close>: the species of the inventory\<close>

text \<open>The molecular weights; the entry of \<^verbatim>\<open>E_PM25\<close> is commented out in the source.\<close>

definition var_dict :: "(string \<times> int) list" where
  "var_dict = [(''E_NO'', 14), (''E_SO2'', 64)]"

definition types :: "string list" where
  "types = [''Industry'', ''Energy'', ''Traffic'', ''Residential'', ''Fires'']"

definition species :: "string \<Rightarrow> string list" where
  "species name =
     (if name = ''E_NO'' then map (\<lambda>t. drop 2 name @ ''x_'' @ t) types
      else map (\<lambda>t. drop 2 name @ ''_'' @ t) types)"

text \<open>\<^verbatim>\<open>ds[species]\<close>: the dataset of the listed variables; KeyError on a missing one.\<close>

definition subset_vars :: "dataset \<Rightarrow> string list \<Rightarrow> error + dataset" where
  "subset_vars ds names =
     (case filter (\<lambda>n. data_vars ds n = None) names of
        [] \<Rightarrow> Inr (ds\<lparr>data_vars := (\<lambda>key. if key \<in> set names then data_vars ds key else None)\<rparr>)
      | n # _ \<Rightarrow> Inl KeyError)"

text \<open>\<^verbatim>\<open>d[key] = v\<close> on a dictionary that keeps the order of insertion.\<close>

fun set_item :: "('k \<times> 'v) list \<Rightarrow> 'k \<Rightarrow> 'v \<Rightarrow> ('k \<times> 'v) list" where
  "set_item [] key v = [(key, v)]"
| "set_item ((k, w) # kvs) key v =
     (if k = key then (k, v) # kvs else (k, w) # set_item kvs key v)"

text \<open>
  The state \<^verbatim>\<open>read_vito\<close> leaves in the object: the grid of \<^verbatim>\<open>calc_area\<close> and the
  variables of \<^verbatim>\<open>self.emi\<close> (the longitudes and latitudes of the first species, and
  one variable for every species). The loop over the species computes the grid at
  the first species only (\<^verbatim>\<open>hasattr(self, 'emi')\<close> is false then). The messages of
  \<^verbatim>\<open>read_vito\<close> itself (minimum, maximum and mean of a field) are not modelled.
\<close>

record vito_emi =
  grid :: emi_grid
  emi_longitude :: "real list list"
  emi_latitude :: "real list list"
  emi :: "(string \<times> emis) list"

fun read_species ::
  "nat \<Rightarrow> nat \<Rightarrow> error + fval list list \<Rightarrow> dataset \<Rightarrow> string list \<Rightarrow>
   vito_emi option \<Rightarrow> log \<Rightarrow> error + log \<times> vito_emi option" where
  "read_species days mm csv ds [] st lg = Inr (lg, st)"
| "read_species days mm csv ds (name # names) st lg =
     (case subset_vars ds (species name) of Inl e \<Rightarrow> Inl e | Inr ds_var \<Rightarrow>
      case st of
        None \<Rightarrow>
          (case calc_area ds_var of Inl e \<Rightarrow> Inl e | Inr g \<Rightarrow>
           case get_ds days (emi_area g) csv ds_var name (map_of var_dict) mm of
             Inl e \<Rightarrow> Inl e
           | Inr (l, r) \<Rightarrow>
               read_species days mm csv ds names (Some \<lparr>grid = g, emi_longitude = longitude r, emi_latitude = latitude r,
                        emi = [(name, r)]\<rparr>)
                 (lg @ l))
      | Some s \<Rightarrow>
          (case get_ds days (emi_area (grid s)) csv ds_var name (map_of var_dict) mm of
             Inl e \<Rightarrow> Inl e
           | Inr (l, r) \<Rightarrow>
               read_species days mm csv ds names (Some (s\<lparr>emi := set_item (emi s) name r\<rparr>)) (lg @ l)))"

definition read_vito ::
  "nat \<Rightarrow> nat \<Rightarrow> error + fval list list \<Rightarrow> dataset \<Rightarrow> error + log \<times> vito_emi option" where
  "read_vito days mm csv ds = read_species days mm csv ds (map fst var_dict) None []"

section \<open>\<^verbatim>\<open>get_info\<close>: the target area\<close>

record geo_attrs =
  i_parent_end :: nat
  j_parent_end :: nat
  DX :: real
  DY :: real
  MAP_PROJ :: int
  MOAD_CEN_LAT :: real
  STAND_LON :: real
  TRUELAT1 :: real
  TRUELAT2 :: real

text \<open>The arguments \<^verbatim>\<open>get_info\<close> passes to \<^verbatim>\<open>AreaDefinition.from_circle\<close>.\<close>

record area_def =
  area_id :: string
  proj :: string
  lat_0 :: real
  lon_0 :: real
  lat_1 :: real
  lat_2 :: real
  axis_a :: real
  axis_b :: real
  center :: "real \<times> real"
  radius :: "real \<times> real"
  shape :: "nat \<times> nat"

definition wrf_projs :: "(int \<times> string) list" where
  "wrf_projs = [(1, ''lcc''), (2, ''npstere''), (3, ''merc''), (6, ''eqc'')]"

definition get_info :: "geo_attrs \<Rightarrow> error + area_def" where
  "get_info g =
     (let i = i_parent_end g;
          j = j_parent_end g
      in case map_of wrf_projs (MAP_PROJ g) of
           None \<Rightarrow> Inl KeyError
         | Some p \<Rightarrow>
             Inr \<lparr>area_id = ''wrf_circle'', proj = p,
                  lat_0 = MOAD_CEN_LAT g, lon_0 = STAND_LON g,
                  lat_1 = TRUELAT1 g, lat_2 = TRUELAT2 g,
                  axis_a = 6370000, axis_b = 6370000,
                  center = (0, 0),
                  radius = (real i * DX g / 2, real j * DY g / 2),
                  shape = (j, i)\<rparr>)"

section \<open>\<^verbatim>\<open>resample_WRF\<close>: the time stamps and the resampled fields\<close>

text \<open>
  A \<^verbatim>\<open>datetime\<close> is the number of its microseconds, a \<^verbatim>\<open>timedelta\<close> a number of
  microseconds. The generator \<^verbatim>\<open>perdelta\<close> runs forever on a step that is not
  positive, so the list of what it yields is a partial function: \<open>None\<close> is the call
  that does not return.
\<close>

partial_function (option) perdelta :: "int \<Rightarrow> int \<Rightarrow> int \<Rightarrow> int list option" where
  "perdelta cur end delta =
     (if cur \<le> end
      then Option.bind (perdelta (cur + delta) end delta) (\<lambda>rest. Some (cur # rest))
      else Some [])"

text \<open>\<^verbatim>\<open>timedelta(hours=1)\<close>\<close>

definition one_hour :: int where
  "one_hour = 3600000000"

text \<open>
  The functions of \<^verbatim>\<open>pyresample\<close> are a parameter of the model. Each takes the swath
  of the inventory (longitudes and latitudes of the cell centres), the field of one
  hour, the target area and the fill value; the radius of influence, the number of
  neighbours and the weight function are the constants of the source.
\<close>

type_synonym swath = "real list list \<times> real list list"

record pyresample =
  resample_nearest :: "swath \<Rightarrow> field \<Rightarrow> area_def \<Rightarrow> fval \<Rightarrow> field"
  resample_custom :: "swath \<Rightarrow> field \<Rightarrow> area_def \<Rightarrow> fval \<Rightarrow> field"
  resample_bilinear :: "field \<Rightarrow> swath \<Rightarrow> area_def \<Rightarrow> fval \<Rightarrow> field"

text \<open>
  The body of the loop over the hours: the field appended to \<^verbatim>\<open>resampled_list\<close>, or
  nothing when \<^verbatim>\<open>resample_method\<close> is none of the three names. The fill value is
  \<open>0.\<close> in every call.
\<close>

definition resample_hour ::
  "pyresample \<Rightarrow> string \<Rightarrow> swath \<Rightarrow> area_def \<Rightarrow> field \<Rightarrow> field option" where
  "resample_hour lib resample_method orig_def area slice =
     (if resample_method = ''nearest''
      then Some (resample_nearest lib orig_def slice area (Fin 0))
      else if resample_method = ''idw''
      then Some (resample_custom lib orig_def slice area (Fin 0))
      else if resample_method = ''bilinear''
      then Some (resample_bilinear lib slice orig_def area (Fin 0))
      else None)"

text \<open>
  \<^verbatim>\<open>np.flip(np.rollaxis(np.dstack(resampled_list), -1), 1)[:, np.newaxis, ...]\<close>: the
  fields in the order of the hours, the rows of each reversed, each under a vertical
  axis of length one. \<^verbatim>\<open>np.dstack\<close> raises ValueError on the empty list.
\<close>

definition stack_flip :: "field list \<Rightarrow> error + field list list" where
  "stack_flip resampled_list =
     (if resampled_list = [] then Inl ValueError
      else Inr (map (\<lambda>f. [rev f]) resampled_list))"

text \<open>
  A variable of a wrfchemi dataset: the time stamps, or a field with dimensions
  (Time, emissions_zdim, south_north, west_east) and its unit. A dataset is modelled as
  the dictionary of its variables.
\<close>

datatype ncvar = Strs "string list" | Flts "field list list" string

type_synonym ncdata = "string \<rightharpoonup> ncvar"

text \<open>
  The loop over the variables of \<^verbatim>\<open>self.emi\<close>. Assigning a variable whose Time axis
  is not as long as \<open>Times\<close> raises ValueError; a variable without unit raises KeyError
  when its attributes are built.
\<close>

fun resample_vars ::
  "pyresample \<Rightarrow> string \<Rightarrow> swath \<Rightarrow> area_def \<Rightarrow> nat \<Rightarrow>
   (string \<times> emis) list \<Rightarrow> ncdata \<Rightarrow> error + ncdata" where
  "resample_vars lib method orig_def area ntimes [] chemi = Inr chemi"
| "resample_vars lib method orig_def area ntimes ((vname, v) # rest) chemi =
     (if is_infix ''E_'' vname then
        (case stack_flip (List.map_filter (resample_hour lib method orig_def area) (hourly v)) of
           Inl e \<Rightarrow> Inl e
         | Inr resampled_data \<Rightarrow>
             (if length resampled_data \<noteq> ntimes then Inl ValueError
              else case units v of
                     None \<Rightarrow> Inl KeyError
                   | Some u \<Rightarrow>
                       resample_vars lib method orig_def area ntimes rest
                         (chemi(vname \<mapsto> Flts resampled_data u))))
      else resample_vars lib method orig_def area ntimes rest chemi)"

text \<open>
  \<^verbatim>\<open>resample_WRF(st, et, delta)\<close>. The time stamps are those of \<^verbatim>\<open>perdelta\<close> with the
  step \<^verbatim>\<open>timedelta(hours=1)\<close>, formatted by \<^verbatim>\<open>strftime\<close> (a parameter) and cut to the
  19 bytes of the array's type. The result is \<^verbatim>\<open>self.chemi\<close>.
\<close>

definition resample_WRF ::
  "pyresample \<Rightarrow> (int \<Rightarrow> string) \<Rightarrow> string \<Rightarrow> area_def \<Rightarrow> vito_emi \<Rightarrow>
   int \<Rightarrow> int \<Rightarrow> int \<Rightarrow> (error + ncdata) option" where
  "resample_WRF lib strftime method area self st et delta =
     (case perdelta st et one_hour of
        None \<Rightarrow> None
      | Some datetime_list \<Rightarrow>
          (let Times = map (\<lambda>timstep. take 19 (strftime timstep)) datetime_list;
               orig_def = (emi_longitude self, emi_latitude self)
           in Some (resample_vars lib method orig_def area (length Times) (emi self)
                      [''Times'' \<mapsto> Strs Times])))"

section \<open>\<^verbatim>\<open>replace_var\<close>: the two 12-hour files\<close>

definition output_dir :: string where
  "output_dir = ''../output_files/''"

definition domain :: string where
  "domain = ''d01''"

definition tindex :: "nat list list" where
  "tindex = [[0..<12], [12..<24]]"

definition files :: "string list" where
  "files = [output_dir @ ''wrfchemi_00z_'' @ domain, output_dir @ ''wrfchemi_12z_'' @ domain]"

text \<open>
  \<^verbatim>\<open>.isel(Time=idx)\<close>: the entries of the Time axis at the positions \<open>idx\<close>, in
  their order; IndexError when a position is beyond the axis.
\<close>

definition isel :: "nat list \<Rightarrow> 'a list \<Rightarrow> error + 'a list" where
  "isel idx xs =
     (if list_all (\<lambda>i. i < length xs) idx then Inr (map (\<lambda>i. xs ! i) idx)
      else Inl IndexError)"

definition isel_Time :: "nat list \<Rightarrow> ncvar \<Rightarrow> error + ncvar" where
  "isel_Time idx v =
     (case v of
        Strs ts \<Rightarrow> (case isel idx ts of Inl e \<Rightarrow> Inl e | Inr ts' \<Rightarrow> Inr (Strs ts'))
      | Flts d u \<Rightarrow> (case isel idx d of Inl e \<Rightarrow> Inl e | Inr d' \<Rightarrow> Inr (Flts d' u)))"

text \<open>
  The loop over the two files. The file system maps a path to the dataset stored
  there. An existing file is opened, its variables \<^verbatim>\<open>E_NO\<close> and \<^verbatim>\<open>E_SO2\<close> are assigned
  and it is written back; for a missing file a line is printed and the loop goes on.
  The result is the file system and the lines printed. The encoding of the files and
  the checks xarray makes on the sizes of the dimensions it assigns are not modelled.
\<close>

fun replace_files ::
  "ncdata \<Rightarrow> (nat \<times> string) list \<Rightarrow> (string \<rightharpoonup> ncdata) \<Rightarrow> string list \<Rightarrow>
   error + (string \<rightharpoonup> ncdata) \<times> string list" where
  "replace_files chemi [] fs out = Inr (fs, out)"
| "replace_files chemi ((index, file) # rest) fs out =
     (case fs file of
        Some ds \<Rightarrow>
          (case getitem chemi ''E_NO'' of Inl e \<Rightarrow> Inl e | Inr e_no \<Rightarrow>
           case isel_Time (tindex ! index) e_no of Inl e \<Rightarrow> Inl e | Inr no \<Rightarrow>
           case getitem chemi ''E_SO2'' of Inl e \<Rightarrow> Inl e | Inr e_so2 \<Rightarrow>
           case isel_Time (tindex ! index) e_so2 of Inl e \<Rightarrow> Inl e | Inr so2 \<Rightarrow>
             replace_files chemi rest
               (fs(file \<mapsto> ds(''E_NO'' \<mapsto> no, ''E_SO2'' \<mapsto> so2))) out)
      | None \<Rightarrow>
          replace_files chemi rest fs (out @ [''!!! Please run mozcart.py first !!!'']))"

definition replace_var ::
  "ncdata \<Rightarrow> (string \<rightharpoonup> ncdata) \<Rightarrow> error + (string \<rightharpoonup> ncdata) \<times> string list" where
  "replace_var chemi fs = replace_files chemi (enumerate 0 files) fs []"

section \<open>The constructor\<close>

text \<open>
  \<^verbatim>\<open>vito(st, et, delta)\<close> runs the four steps in order. Beside the arguments of the
  source it takes what the steps read: the library, the module constants
  (\<^verbatim>\<open>resample_method\<close>, \<^verbatim>\<open>days\<close>, \<^verbatim>\<open>mm\<close>), the attributes of the geo file, the
  outcome of reading the factor table, the inventory and the file system.
\<close>

definition vito_init ::
  "pyresample \<Rightarrow> (int \<Rightarrow> string) \<Rightarrow> string \<Rightarrow> nat \<Rightarrow> nat \<Rightarrow> geo_attrs \<Rightarrow>
   error + fval list list \<Rightarrow> dataset \<Rightarrow> (string \<rightharpoonup> ncdata) \<Rightarrow>
   int \<Rightarrow> int \<Rightarrow> int \<Rightarrow> (error + (string \<rightharpoonup> ncdata) \<times> string list) option" where
  "vito_init lib strftime method days mm geo csv ds fs st et delta =
     (case get_info geo of Inl e \<Rightarrow> Some (Inl e) | Inr area \<Rightarrow>
      case read_vito days mm csv ds of Inl e \<Rightarrow> Some (Inl e) | Inr (lg, state) \<Rightarrow>
      case state of None \<Rightarrow> Some (Inl AttributeError) | Some self \<Rightarrow>
      case resample_WRF lib strftime method area self st et delta of
        None \<Rightarrow> None
      | Some (Inl e) \<Rightarrow> Some (Inl e)
      | Some (Inr chemi) \<Rightarrow> Some (replace_var chemi fs))"

section \<open>Example data\<close>

text \<open>
  A grid of two rows and two columns with one time step in June (a month of 30 days):
  the Industry sector of NOx is 10 in every cell, the other four sectors are 0, and
  every cell has an area of \<open>10\<^sup>6\<close> square metres.
\<close>

definition ex_var :: "real \<Rightarrow> variable" where
  "ex_var c = \<lparr>vals = [[[Fin c, Fin c], [Fin c, Fin c]]], MissingValue = Fin (- 999)\<rparr>"

definition ex_ds :: dataset where
  "ex_ds = \<lparr>lon = [0, 1], lat = [1, 0], time_month = [6], attrs = Map.empty,
     data_vars = map_of [(''NOx_Industry'', ex_var 10), (''NOx_Energy'', ex_var 0),
        (''NOx_Traffic'', ex_var 0), (''NOx_Residential'', ex_var 0),
        (''NOx_Fires'', ex_var 0)]\<rparr>"


text \<open>
  Bounds of a grid that partition a band: both lists are strictly monotone (rising or
  falling), and the latitudes lie between the poles. The area of the band between the
  first and the last bound follows from the area \<open>2\<pi>R\<^sup>2(1 - sin \<phi>)\<close> of the cap north
  of the latitude \<open>\<phi>\<close>.
\<close>

definition strictly_monotone :: "real list \<Rightarrow> bool" where
  "strictly_monotone xs = (sorted_wrt (<) xs \<or> sorted_wrt (>) xs)"

definition valid_partition :: "real list \<Rightarrow> real list \<Rightarrow> bool" where
  "valid_partition lon_b lat_b =
     (lon_b \<noteq> [] \<and> lat_b \<noteq> [] \<and> strictly_monotone lon_b \<and> strictly_monotone lat_b \<and>
      list_all (\<lambda>y. - 90 \<le> y \<and> y \<le> 90) lat_b)"

definition band_area :: "real list \<Rightarrow> real list \<Rightarrow> real" where
  "band_area lon_b lat_b =
     2 * pi * EARTH_RADIUS\<^sup>2 *
       \<bar>sin (hd lat_b * pi / 180) - sin (last lat_b * pi / 180)\<bar> *
       (\<bar>hd lon_b - last lon_b\<bar> / 360)"

text \<open>
  A grid of two rows and two columns between the longitudes 0 and 180 and the latitudes
  90 and -30 (its bounds are 0, 90, 180 and 90, 30, -30), and a grid of one cell whose
  west and east bounds coincide.
\<close>

definition ex_band :: dataset where
  "ex_band = \<lparr>lon = [45, 135], lat = [60, 0], time_month = [],
     attrs = map_of [(''grid_westb'', Numeric 0), (''grid_eastb'', Numeric 180),
                     (''grid_northb'', Numeric 90), (''grid_southb'', Numeric (- 30))],
     data_vars = Map.empty\<rparr>"

definition ex_degenerate :: dataset where
  "ex_degenerate = \<lparr>lon = [5], lat = [1 / 2], time_month = [],
     attrs = map_of [(''grid_westb'', Numeric 5), (''grid_eastb'', Numeric 5),
                     (''grid_northb'', Numeric 1), (''grid_southb'', Numeric 0)],
     data_vars = Map.empty\<rparr>"

text \<open>
  Notions of the specification of the factor table and of the disaggregation: a raw
  table with one column multiplied by a constant; the identity table; a field of \<open>n\<close>
  rows and \<open>m\<close> columns; the sum of the 24 hourly values of a cell, and the sum of the
  five sector values of a cell.
\<close>

definition scale_column :: "nat \<Rightarrow> real \<Rightarrow> real list list \<Rightarrow> real list list" where
  "scale_column c \<kappa> raw = map (\<lambda>r. r[c := \<kappa> * r ! c]) raw"

definition identity_table :: "fval list list" where
  "identity_table = replicate 24 (replicate 5 (Fin 1))"

definition field_shape :: "nat \<Rightarrow> nat \<Rightarrow> 'a list list \<Rightarrow> bool" where
  "field_shape n m fld = (length fld = n \<and> list_all (\<lambda>row. length row = m) fld)"

definition daily_total :: "field list \<Rightarrow> nat \<Rightarrow> nat \<Rightarrow> fval" where
  "daily_total out j i = foldl fadd (Fin 0) (map (\<lambda>h. out ! h ! j ! i) [0..<24])"

definition sector_total :: "(string \<Rightarrow> field) \<Rightarrow> nat \<Rightarrow> nat \<Rightarrow> fval" where
  "sector_total fld j i = foldl fadd (Fin 0) (map (\<lambda>k. fld k ! j ! i) kind)"

text \<open>
  A raw factor table whose first column is 1 in the first twelve hours and 3 in the
  last twelve, a raw factor table whose first column is 0 in every hour, and the sector
  fields of the example grid.
\<close>

definition ex_zero_raw :: "real list list" where
  "ex_zero_raw = replicate 24 [0, 1, 1, 1, 1]"

definition ex_raw :: "real list list" where
  "ex_raw = replicate 12 [1, 2, 0, 4, 10] @ replicate 12 [3, 2, 6, 4, 0]"

definition ex_fld :: "string \<Rightarrow> field" where
  "ex_fld k = (if k = ''Industry'' then [[Fin 10, Fin 10], [Fin 10, Fin 10]]
               else [[Fin 0, Fin 0], [Fin 0, Fin 0]])"






text \<open>
  Resampled fields of \<open>n\<close> hours on a grid of one cell, the hour \<open>h\<close> holding the value
  \<open>h\<close>; a baseline dataset of twelve hours; a file system with both baseline files, and
  one with the second file only.
\<close>

definition ex_hours :: "nat \<Rightarrow> field list list" where
  "ex_hours n = map (\<lambda>h. [[[Fin (real h)]]]) [0..<n]"

definition ex_chemi :: "nat \<Rightarrow> ncdata" where
  "ex_chemi n = [''E_NO'' \<mapsto> Flts (ex_hours n) ''mol km-2 hr-1'',
                 ''E_SO2'' \<mapsto> Flts (ex_hours n) ''mol km-2 hr-1'']"

definition ex_base :: ncdata where
  "ex_base = [''E_CO'' \<mapsto> Flts (replicate 12 [[[Fin 1]]]) ''mol km-2 hr-1'',
              ''E_NO'' \<mapsto> Flts (replicate 12 [[[Fin 0]]]) ''mol km-2 hr-1'']"

definition ex_fs :: "string \<rightharpoonup> ncdata" where
  "ex_fs = [files ! 0 \<mapsto> ex_base, files ! 1 \<mapsto> ex_base]"

definition ex_fs_second :: "string \<rightharpoonup> ncdata" where
  "ex_fs_second = [files ! 1 \<mapsto> ex_base]"

text \<open>
  The time steps from \<open>st\<close> to \<open>et\<close> one hour apart: \<open>st\<close>, \<open>st\<close> plus one hour, and so on
  while the step is not after \<open>et\<close>.
\<close>

definition hour_steps :: "int \<Rightarrow> int \<Rightarrow> int list" where
  "hour_steps st et = map (\<lambda>k. st + int k * one_hour) [0..<nat ((et - st) div one_hour + 1)]"


section \<open>Unit conversion\<close>







section \<open>Cell areas\<close>

lemma telescope_up:
  fixes f :: "nat \<Rightarrow> real"
  assumes "\<And>k. k < n \<Longrightarrow> f k < f (Suc k)"
  shows "(\<Sum>k<n. \<bar>f k - f (Suc k)\<bar>) = f n - f 0 \<and> (0 < n \<longrightarrow> f 0 < f n)"
  using assms
proof (induction n)
  case 0
  then show ?case by simp
next
  case (Suc n)
  have "f n < f (Suc n)" using Suc.prems by simp
  moreover have "(\<Sum>k<n. \<bar>f k - f (Suc k)\<bar>) = f n - f 0 \<and> (0 < n \<longrightarrow> f 0 < f n)"
    using Suc.IH Suc.prems by simp
  ultimately show ?case by (cases "n = 0") auto
qed

lemma telescope_abs:
  fixes f :: "nat \<Rightarrow> real"
  assumes "(\<forall>k<n. f k < f (Suc k)) \<or> (\<forall>k<n. f (Suc k) < f k)"
  shows "(\<Sum>k<n. \<bar>f k - f (Suc k)\<bar>) = \<bar>f 0 - f n\<bar>"
  using assms
proof
  assume a: "\<forall>k<n. f k < f (Suc k)"
  from telescope_up[of n f] a show ?thesis by (cases "n = 0") auto
next
  assume a: "\<forall>k<n. f (Suc k) < f k"
  have "(\<Sum>k<n. \<bar>(- f k) - (- f (Suc k))\<bar>) = (- f n) - (- f 0) \<and> (0 < n \<longrightarrow> - f 0 < - f n)"
    by (rule telescope_up) (use a in simp)
  moreover have "(\<Sum>k<n. \<bar>(- f k) - (- f (Suc k))\<bar>) = (\<Sum>k<n. \<bar>f k - f (Suc k)\<bar>)"
    by (rule sum.cong) auto
  ultimately show ?thesis by (cases "n = 0") auto
qed

lemma strictly_monotone_nth:
  assumes "strictly_monotone xs"
  shows "(\<forall>k<length xs - 1. xs ! k < xs ! Suc k) \<or> (\<forall>k<length xs - 1. xs ! Suc k < xs ! k)"
  using assms unfolding strictly_monotone_def
  by (auto simp: sorted_wrt_iff_nth_less)

lemma cap_area_diff:
  "\<bar>cap_area y1 - cap_area y2\<bar> =
     2 * pi * EARTH_RADIUS\<^sup>2 * \<bar>sin (y1 * pi / 180) - sin (y2 * pi / 180)\<bar>"
proof -
  have "cap_area y1 - cap_area y2 =
          2 * pi * EARTH_RADIUS\<^sup>2 * (sin (y2 * pi / 180) - sin (y1 * pi / 180))"
    by (simp add: cap_area_def Rad_per_Deg_def power2_eq_square algebra_simps)
  moreover have "0 \<le> 2 * pi * EARTH_RADIUS\<^sup>2" by simp
  ultimately show ?thesis
    by (simp add: abs_mult abs_minus_commute)
qed

lemma deg_to_rad_bounds:
  assumes "- 90 \<le> x" "x \<le> (90::real)"
  shows "- (pi / 2) \<le> x * pi / 180" "x * pi / 180 \<le> pi / 2"
proof -
  have "(- 90) * pi \<le> x * pi" "x * pi \<le> 90 * pi"
    using mult_right_mono[of "- 90" x pi] mult_right_mono[of x 90 pi] assms
    by simp_all
  then show "- (pi / 2) \<le> x * pi / 180" "x * pi / 180 \<le> pi / 2"
    by simp_all
qed

lemma sin_deg_less:
  assumes "- 90 \<le> x" "y \<le> 90" "x < (y::real)"
  shows "sin (x * pi / 180) < sin (y * pi / 180)"
proof (rule sin_monotone_2pi)
  have "x \<le> 90" using assms by simp
  then show "- (pi / 2) \<le> x * pi / 180" using assms(1) deg_to_rad_bounds by blast
  show "x * pi / 180 < y * pi / 180" using assms(3) by simp
  have "- 90 \<le> y" using assms by simp
  then show "y * pi / 180 \<le> pi / 2" using assms(2) deg_to_rad_bounds by blast
qed

lemma sum_abs_adjacent:
  assumes "xs \<noteq> []" "strictly_monotone xs"
  shows "(\<Sum>k<length xs - 1. \<bar>xs ! k - xs ! Suc k\<bar>) = \<bar>hd xs - last xs\<bar>"
proof -
  have "(\<Sum>k<length xs - 1. \<bar>xs ! k - xs ! Suc k\<bar>) = \<bar>xs ! 0 - xs ! (length xs - 1)\<bar>"
    by (rule telescope_abs) (use strictly_monotone_nth[OF assms(2)] in blast)
  then show ?thesis
    using assms(1) by (simp add: hd_conv_nth last_conv_nth)
qed

lemma sum_abs_sin_adjacent:
  assumes "ys \<noteq> []" "strictly_monotone ys" "list_all (\<lambda>y. - 90 \<le> y \<and> y \<le> 90) ys"
  shows "(\<Sum>k<length ys - 1. \<bar>sin (ys ! k * pi / 180) - sin (ys ! Suc k * pi / 180)\<bar>) =
           \<bar>sin (hd ys * pi / 180) - sin (last ys * pi / 180)\<bar>"
proof -
  have rng: "- 90 \<le> ys ! k \<and> ys ! k \<le> 90" if "k < length ys" for k
    using assms(3) that by (simp add: list_all_length)
  have mono: "(\<forall>k<length ys - 1. sin (ys ! k * pi / 180) < sin (ys ! Suc k * pi / 180)) \<or>
              (\<forall>k<length ys - 1. sin (ys ! Suc k * pi / 180) < sin (ys ! k * pi / 180))"
    using strictly_monotone_nth[OF assms(2)]
  proof
    assume a: "\<forall>k<length ys - 1. ys ! k < ys ! Suc k"
    have "sin (ys ! k * pi / 180) < sin (ys ! Suc k * pi / 180)" if "k < length ys - 1" for k
      using that a rng[of k] rng[of "Suc k"] by (intro sin_deg_less) auto
    then show ?thesis by blast
  next
    assume a: "\<forall>k<length ys - 1. ys ! Suc k < ys ! k"
    have "sin (ys ! Suc k * pi / 180) < sin (ys ! k * pi / 180)" if "k < length ys - 1" for k
      using that a rng[of k] rng[of "Suc k"] by (intro sin_deg_less) auto
    then show ?thesis by blast
  qed
  have "(\<Sum>k<length ys - 1. \<bar>sin (ys ! k * pi / 180) - sin (ys ! Suc k * pi / 180)\<bar>) =
          \<bar>sin (ys ! 0 * pi / 180) - sin (ys ! (length ys - 1) * pi / 180)\<bar>"
    by (rule telescope_abs[where f = "\<lambda>k. sin (ys ! k * pi / 180)"]) (rule mono)
  then show ?thesis
    using assms(1) by (simp add: hd_conv_nth last_conv_nth)
qed

lemma area_loop_sum:
  "(\<Sum>row\<leftarrow>area_loop lon_b lat_b. sum_list row) =
     (\<Sum>j<length lat_b - 1. \<bar>cap_area (lat_b ! j) - cap_area (lat_b ! Suc j)\<bar>) *
     (\<Sum>i<length lon_b - 1. \<bar>lon_b ! i - lon_b ! Suc i\<bar>) / 360"
proof -
  have "(\<Sum>row\<leftarrow>area_loop lon_b lat_b. sum_list row) =
          (\<Sum>j<length lat_b - 1. \<Sum>i<length lon_b - 1.
             \<bar>cap_area (lat_b ! j) - cap_area (lat_b ! Suc j)\<bar> * \<bar>lon_b ! i - lon_b ! Suc i\<bar> / 360)"
    by (simp add: area_loop_def cell_area_def Let_def o_def
        interv_sum_list_conv_sum_set_nat atLeast0LessThan)
  also have "\<dots> = (\<Sum>j<length lat_b - 1. \<bar>cap_area (lat_b ! j) - cap_area (lat_b ! Suc j)\<bar>) *
     (\<Sum>i<length lon_b - 1. \<bar>lon_b ! i - lon_b ! Suc i\<bar>) / 360"
    by (simp add: sum_product sum_divide_distrib)
  finally show ?thesis .
qed

lemma area_loop_band:
  assumes "valid_partition lon_b lat_b"
  shows "(\<Sum>row\<leftarrow>area_loop lon_b lat_b. sum_list row) = band_area lon_b lat_b"
proof -
  have lon: "(\<Sum>i<length lon_b - 1. \<bar>lon_b ! i - lon_b ! Suc i\<bar>) = \<bar>hd lon_b - last lon_b\<bar>"
    using assms by (intro sum_abs_adjacent) (simp_all add: valid_partition_def)
  have "(\<Sum>j<length lat_b - 1. \<bar>cap_area (lat_b ! j) - cap_area (lat_b ! Suc j)\<bar>) =
          2 * pi * EARTH_RADIUS\<^sup>2 *
          (\<Sum>j<length lat_b - 1. \<bar>sin (lat_b ! j * pi / 180) - sin (lat_b ! Suc j * pi / 180)\<bar>)"
    by (simp add: cap_area_diff sum_distrib_left)
  also have "\<dots> = 2 * pi * EARTH_RADIUS\<^sup>2 *
          \<bar>sin (hd lat_b * pi / 180) - sin (last lat_b * pi / 180)\<bar>"
    using assms by (subst sum_abs_sin_adjacent) (simp_all add: valid_partition_def)
  finally have lat: "(\<Sum>j<length lat_b - 1. \<bar>cap_area (lat_b ! j) - cap_area (lat_b ! Suc j)\<bar>) =
          2 * pi * EARTH_RADIUS\<^sup>2 *
          \<bar>sin (hd lat_b * pi / 180) - sin (last lat_b * pi / 180)\<bar>" .
  show ?thesis
    unfolding area_loop_sum lat lon band_area_def by simp
qed

lemma area_loop_nth:
  assumes "j < length lat_b - 1" "i < length lon_b - 1"
  shows "area_loop lon_b lat_b ! j ! i =
           cell_area (lon_b ! i) (lon_b ! (i + 1)) (lat_b ! j) (lat_b ! (j + 1))"
  using assms by (simp add: area_loop_def Let_def)

lemma cell_area_formula:
  "cell_area xlon1 xlon2 ylat1 ylat2 =
     \<bar>2 * pi * 6370000\<^sup>2 * (1 - sin (ylat1 * pi / 180)) -
      2 * pi * 6370000\<^sup>2 * (1 - sin (ylat2 * pi / 180))\<bar> * \<bar>xlon1 - xlon2\<bar> / 360"
  by (simp add: cell_area_def cap_area_def EARTH_RADIUS_def Rad_per_Deg_def
      power2_eq_square algebra_simps)

lemma area_loop_positive:
  assumes "valid_partition lon_b lat_b" "j < length lat_b - 1" "i < length lon_b - 1"
  shows "0 < area_loop lon_b lat_b ! j ! i"
proof -
  have rng: "- 90 \<le> lat_b ! k \<and> lat_b ! k \<le> 90" if "k < length lat_b" for k
    using assms(1) that by (simp add: valid_partition_def list_all_length)
  have "lat_b ! j < lat_b ! Suc j \<or> lat_b ! Suc j < lat_b ! j"
    using strictly_monotone_nth[of lat_b] assms(1,2) by (auto simp: valid_partition_def)
  then have "sin (lat_b ! j * pi / 180) \<noteq> sin (lat_b ! Suc j * pi / 180)"
    using sin_deg_less[of "lat_b ! j" "lat_b ! Suc j"] sin_deg_less[of "lat_b ! Suc j" "lat_b ! j"]
      rng[of j] rng[of "Suc j"] assms(2) by fastforce
  then have "0 < \<bar>cap_area (lat_b ! j) - cap_area (lat_b ! Suc j)\<bar>"
    by (simp add: cap_area_diff EARTH_RADIUS_def)
  moreover have "lon_b ! i \<noteq> lon_b ! Suc i"
    using strictly_monotone_nth[of lon_b] assms(1,3) by (fastforce simp: valid_partition_def)
  ultimately show ?thesis
    using assms(2,3) by (simp add: area_loop_nth cell_area_def Let_def)
qed


lemma length_linspace: "length (linspace a b n) = n"
  by (simp add: linspace_def)

lemma length_area_loop: "length (area_loop lon_b lat_b) = length lat_b - 1"
  by (simp add: area_loop_def Let_def)

lemma area_loop_rows:
  "row \<in> set (area_loop lon_b lat_b) \<Longrightarrow> length row = length lon_b - 1"
  by (auto simp: area_loop_def Let_def)

lemma cell_area_degenerate:
  "xlon1 = xlon2 \<or> ylat1 = ylat2 \<Longrightarrow> cell_area xlon1 xlon2 ylat1 ylat2 = 0"
  by (auto simp: cell_area_def)

lemma linspace_nth:
  assumes "0 < m" "k \<le> m"
  shows "linspace a b (m + 1) ! k = a + real k * (b - a) / real m"
proof (cases "k = m")
  case True
  then show ?thesis using assms(1) by (simp add: linspace_def nth_append)
next
  case False
  then have "k < m" using assms(2) by simp
  then show ?thesis
    using assms(1) by (simp add: linspace_def nth_append)
qed

lemma linspace_hd_last:
  assumes "0 < m"
  shows "hd (linspace a b (m + 1)) = a" "last (linspace a b (m + 1)) = b"
proof -
  have ne: "linspace a b (m + 1) \<noteq> []"
    using length_linspace[of a b "m + 1"] by auto
  show "hd (linspace a b (m + 1)) = a"
    using linspace_nth[OF assms, of 0 a b] ne by (simp add: hd_conv_nth)
  show "last (linspace a b (m + 1)) = b"
    using linspace_nth[OF assms, of m a b] ne assms
    by (simp add: last_conv_nth length_linspace)
qed

lemma linspace_strictly_monotone:
  assumes "a \<noteq> b"
  shows "strictly_monotone (linspace a b (m + 1))"
proof (cases "m = 0")
  case True
  then show ?thesis by (simp add: linspace_def strictly_monotone_def)
next
  case False
  then have m: "0 < m" by simp
  have step: "linspace a b (m + 1) ! i = a + real i * (b - a) / real m" if "i \<le> m" for i
    using linspace_nth[OF m that] .
  show ?thesis
  proof (cases "a < b")
    case True
    have "linspace a b (m + 1) ! i < linspace a b (m + 1) ! j"
      if "i < j" "j < length (linspace a b (m + 1))" for i j
    proof -
      have ij: "i \<le> m" "j \<le> m" using that by (simp_all add: length_linspace)
      have "real i * (b - a) < real j * (b - a)"
        using that(1) True by simp
      then have "real i * (b - a) / real m < real j * (b - a) / real m"
        using m by (simp add: divide_strict_right_mono)
      then show ?thesis using step[OF ij(1)] step[OF ij(2)] by simp
    qed
    then show ?thesis
      by (simp add: strictly_monotone_def sorted_wrt_iff_nth_less)
  next
    case False
    then have ba: "b < a" using assms by simp
    have "linspace a b (m + 1) ! j < linspace a b (m + 1) ! i"
      if "i < j" "j < length (linspace a b (m + 1))" for i j
    proof -
      have ij: "i \<le> m" "j \<le> m" using that by (simp_all add: length_linspace)
      have "real j * (b - a) < real i * (b - a)"
        using that(1) ba by simp
      then have "real j * (b - a) / real m < real i * (b - a) / real m"
        using m by (simp add: divide_strict_right_mono)
      then show ?thesis using step[OF ij(1)] step[OF ij(2)] by simp
    qed
    then show ?thesis
      by (simp add: strictly_monotone_def sorted_wrt_iff_nth_less)
  qed
qed

lemma linspace_range:
  assumes "lo \<le> a" "a \<le> hi" "lo \<le> b" "b \<le> hi"
  shows "list_all (\<lambda>y. lo \<le> y \<and> y \<le> hi) (linspace a b (m + 1))"
proof (cases "m = 0")
  case True
  then show ?thesis using assms by (simp add: linspace_def)
next
  case False
  then have m: "0 < m" by simp
  have "lo \<le> linspace a b (m + 1) ! k \<and> linspace a b (m + 1) ! k \<le> hi"
    if "k < length (linspace a b (m + 1))" for k
  proof -
    have k: "k \<le> m" using that by (simp add: length_linspace)
    define t where "t = real k / real m"
    have t: "0 \<le> t" "t \<le> 1" using k m by (simp_all add: t_def)
    have "(1 - t) * a + t * b = a + t * (b - a)"
      by (simp add: algebra_simps)
    also have "t * (b - a) = real k * (b - a) / real m"
      by (simp add: t_def)
    finally have "a + real k * (b - a) / real m = (1 - t) * a + t * b"
      by simp
    then have eq: "linspace a b (m + 1) ! k = (1 - t) * a + t * b"
      using linspace_nth[OF m k, of a b] by (simp only:)
    have "(1 - t) * lo + t * lo \<le> (1 - t) * a + t * b"
      using t assms by (intro add_mono mult_left_mono) simp_all
    moreover have "(1 - t) * a + t * b \<le> (1 - t) * hi + t * hi"
      using t assms by (intro add_mono mult_left_mono) simp_all
    ultimately show ?thesis
      unfolding eq by (simp add: algebra_simps)
  qed
  then show ?thesis by (simp add: list_all_length)
qed

lemma calc_area_grid:
  assumes "attrs ds ''grid_westb'' = Some (Numeric w)" "attrs ds ''grid_eastb'' = Some (Numeric e)"
    "attrs ds ''grid_northb'' = Some (Numeric n)" "attrs ds ''grid_southb'' = Some (Numeric s)"
  shows "calc_area ds =
           Inr \<lparr>emi_lon_b = linspace w e (length (lon ds) + 1),
                emi_lat_b = linspace n s (length (lat ds) + 1),
                emi_area = area_loop (linspace w e (length (lon ds) + 1))
                                     (linspace n s (length (lat ds) + 1))\<rparr>"
  using assms by (simp add: calc_area_def float_attr_def getitem_def to_float_def Let_def)

lemma grid_cell_area:
  assumes "j < nlat" "i < nlon"
  shows "area_loop (linspace w e (nlon + 1)) (linspace n s (nlat + 1)) ! j ! i =
           \<bar>2 * pi * 6370000\<^sup>2 * (1 - sin ((n + real j * (s - n) / real nlat) * pi / 180)) -
            2 * pi * 6370000\<^sup>2 * (1 - sin ((n + real (j + 1) * (s - n) / real nlat) * pi / 180))\<bar> *
           \<bar>(w + real i * (e - w) / real nlon) - (w + real (i + 1) * (e - w) / real nlon)\<bar> / 360"
proof -
  have pos: "0 < nlat" "0 < nlon" using assms by simp_all
  have "area_loop (linspace w e (nlon + 1)) (linspace n s (nlat + 1)) ! j ! i =
          cell_area (linspace w e (nlon + 1) ! i) (linspace w e (nlon + 1) ! (i + 1))
                    (linspace n s (nlat + 1) ! j) (linspace n s (nlat + 1) ! (j + 1))"
    using assms by (intro area_loop_nth) (simp_all add: length_linspace)
  also have "\<dots> = cell_area (w + real i * (e - w) / real nlon)
                              (w + real (i + 1) * (e - w) / real nlon)
                              (n + real j * (s - n) / real nlat)
                              (n + real (j + 1) * (s - n) / real nlat)"
    using linspace_nth[OF pos(2), of i w e] linspace_nth[OF pos(2), of "i + 1" w e]
      linspace_nth[OF pos(1), of j n s] linspace_nth[OF pos(1), of "j + 1" n s] assms
    by (simp only: Suc_eq_plus1[symmetric] Suc_leI less_imp_le)
  finally show ?thesis by (simp only: cell_area_formula)
qed

lemma grid_valid_partition:
  assumes "w \<noteq> e" "n \<noteq> s" "- 90 \<le> n" "n \<le> 90" "- 90 \<le> s" "s \<le> 90"
  shows "valid_partition (linspace w e (nlon + 1)) (linspace n s (nlat + 1))"
proof -
  have "linspace w e (nlon + 1) \<noteq> []" "linspace n s (nlat + 1) \<noteq> []"
    using length_linspace[of w e "nlon + 1"] length_linspace[of n s "nlat + 1"] by auto
  then show ?thesis
    using linspace_strictly_monotone[OF assms(1)] linspace_strictly_monotone[OF assms(2)]
      linspace_range[OF assms(3,4,5,6)]
    by (simp add: valid_partition_def)
qed

lemma grid_band_area:
  assumes "0 < nlat" "0 < nlon"
  shows "band_area (linspace w e (nlon + 1)) (linspace n s (nlat + 1)) =
           2 * pi * 6370000\<^sup>2 * \<bar>sin (n * pi / 180) - sin (s * pi / 180)\<bar> * (\<bar>w - e\<bar> / 360)"
  using linspace_hd_last[OF assms(1), of n s] linspace_hd_last[OF assms(2), of w e]
  by (simp add: band_area_def EARTH_RADIUS_def)

lemma calc_area_cells:
  assumes "attrs ds ''grid_westb'' = Some (Numeric w)" "attrs ds ''grid_eastb'' = Some (Numeric e)"
    "attrs ds ''grid_northb'' = Some (Numeric n)" "attrs ds ''grid_southb'' = Some (Numeric s)"
  shows "\<exists>g. calc_area ds = Inr g \<and>
     emi_lon_b g = linspace w e (length (lon ds) + 1) \<and>
     emi_lat_b g = linspace n s (length (lat ds) + 1) \<and>
     length (emi_area g) = length (lat ds) \<and>
     (\<forall>j<length (lat ds). length (emi_area g ! j) = length (lon ds) \<and>
        (\<forall>i<length (lon ds). emi_area g ! j ! i =
           \<bar>2 * pi * 6370000\<^sup>2 *
              (1 - sin ((n + real j * (s - n) / real (length (lat ds))) * pi / 180)) -
            2 * pi * 6370000\<^sup>2 *
              (1 - sin ((n + real (j + 1) * (s - n) / real (length (lat ds))) * pi / 180))\<bar> *
           \<bar>(w + real i * (e - w) / real (length (lon ds))) -
            (w + real (i + 1) * (e - w) / real (length (lon ds)))\<bar> / 360)) \<and>
     (w \<noteq> e \<and> n \<noteq> s \<and> - 90 \<le> n \<and> n \<le> 90 \<and> - 90 \<le> s \<and> s \<le> 90 \<longrightarrow>
        (\<forall>j<length (lat ds). \<forall>i<length (lon ds). 0 < emi_area g ! j ! i) \<and>
        (0 < length (lat ds) \<and> 0 < length (lon ds) \<longrightarrow>
           (\<Sum>row\<leftarrow>emi_area g. sum_list row) =
             2 * pi * 6370000\<^sup>2 * \<bar>sin (n * pi / 180) - sin (s * pi / 180)\<bar> * (\<bar>w - e\<bar> / 360)))"
proof -
  define lon_b where "lon_b = linspace w e (length (lon ds) + 1)"
  define lat_b where "lat_b = linspace n s (length (lat ds) + 1)"
  define g where "g = \<lparr>emi_lon_b = lon_b, emi_lat_b = lat_b, emi_area = area_loop lon_b lat_b\<rparr>"
  have c: "calc_area ds = Inr g"
    using calc_area_grid[OF assms] by (simp add: g_def lon_b_def lat_b_def)
  have len: "length (emi_area g) = length (lat ds)"
    by (simp add: g_def length_area_loop lat_b_def length_linspace)
  have rows: "length (emi_area g ! j) = length (lon ds)" if "j < length (lat ds)" for j
  proof -
    have "emi_area g ! j \<in> set (area_loop lon_b lat_b)"
      using that len by (simp add: g_def)
    from area_loop_rows[OF this] show ?thesis
      by (simp add: lon_b_def length_linspace)
  qed
  have cell: "emi_area g ! j ! i =
           \<bar>2 * pi * 6370000\<^sup>2 *
              (1 - sin ((n + real j * (s - n) / real (length (lat ds))) * pi / 180)) -
            2 * pi * 6370000\<^sup>2 *
              (1 - sin ((n + real (j + 1) * (s - n) / real (length (lat ds))) * pi / 180))\<bar> *
           \<bar>(w + real i * (e - w) / real (length (lon ds))) -
            (w + real (i + 1) * (e - w) / real (length (lon ds)))\<bar> / 360"
    if "j < length (lat ds)" "i < length (lon ds)" for j i
    using grid_cell_area[OF that, of w e n s] by (simp add: g_def lon_b_def lat_b_def)
  have part: "(\<forall>j<length (lat ds). \<forall>i<length (lon ds). 0 < emi_area g ! j ! i) \<and>
        (0 < length (lat ds) \<and> 0 < length (lon ds) \<longrightarrow>
           (\<Sum>row\<leftarrow>emi_area g. sum_list row) =
             2 * pi * 6370000\<^sup>2 * \<bar>sin (n * pi / 180) - sin (s * pi / 180)\<bar> * (\<bar>w - e\<bar> / 360))"
    if h: "w \<noteq> e" "n \<noteq> s" "- 90 \<le> n" "n \<le> 90" "- 90 \<le> s" "s \<le> 90"
  proof -
    have vp: "valid_partition lon_b lat_b"
      unfolding lon_b_def lat_b_def by (rule grid_valid_partition[OF h])
    have "0 < emi_area g ! j ! i" if "j < length (lat ds)" "i < length (lon ds)" for j i
      using area_loop_positive[OF vp, of j i] that
      by (simp add: g_def lon_b_def lat_b_def length_linspace)
    moreover have "(\<Sum>row\<leftarrow>emi_area g. sum_list row) =
             2 * pi * 6370000\<^sup>2 * \<bar>sin (n * pi / 180) - sin (s * pi / 180)\<bar> * (\<bar>w - e\<bar> / 360)"
      if "0 < length (lat ds)" "0 < length (lon ds)"
      using area_loop_band[OF vp] grid_band_area[OF that, of w e n s]
      by (simp add: g_def lon_b_def lat_b_def)
    ultimately show ?thesis by blast
  qed
  show ?thesis
    using c len rows cell part by (intro exI[of _ g]) (simp add: g_def lon_b_def lat_b_def)
qed

text \<open>
  C3. With the four bound attributes readable as the numbers \<open>w\<close>, \<open>e\<close>, \<open>n\<close>, \<open>s\<close>,
  \<^verbatim>\<open>calc_area\<close> returns one area for every cell of the source grid, whose bounds run in
  equal steps from \<open>w\<close> to \<open>e\<close> and from \<open>n\<close> to \<open>s\<close>: the area of the cell \<open>(j, i)\<close> is the
  absolute difference of the cap areas \<open>2\<pi>R\<^sup>2(1 - sin \<phi>)\<close> at its two latitude edges (in
  degrees, converted to radians; \<open>R = 6370000\<close>), times \<open>|\<Delta>lon| / 360\<close>. When the west and
  east bounds differ, the north and south bounds differ and both lie between -90 and
  90, every area is positive and the areas sum to the area of the band between the
  bounds. The same holds of the loop on any lists of bounds: the formula for every cell,
  and, when the bounds partition a band, positive areas that sum to the area of the
  band.
\<close>

theorem cell_area_spherical_cap:
  "(attrs ds ''grid_westb'' = Some (Numeric w) \<and> attrs ds ''grid_eastb'' = Some (Numeric e) \<and>
    attrs ds ''grid_northb'' = Some (Numeric n) \<and> attrs ds ''grid_southb'' = Some (Numeric s) \<longrightarrow>
    (\<exists>g. calc_area ds = Inr g \<and>
       emi_lon_b g = linspace w e (length (lon ds) + 1) \<and>
       emi_lat_b g = linspace n s (length (lat ds) + 1) \<and>
       length (emi_area g) = length (lat ds) \<and>
       (\<forall>j<length (lat ds). length (emi_area g ! j) = length (lon ds) \<and>
          (\<forall>i<length (lon ds). emi_area g ! j ! i =
             \<bar>2 * pi * 6370000\<^sup>2 *
                (1 - sin ((n + real j * (s - n) / real (length (lat ds))) * pi / 180)) -
              2 * pi * 6370000\<^sup>2 *
                (1 - sin ((n + real (j + 1) * (s - n) / real (length (lat ds))) * pi / 180))\<bar> *
             \<bar>(w + real i * (e - w) / real (length (lon ds))) -
              (w + real (i + 1) * (e - w) / real (length (lon ds)))\<bar> / 360)) \<and>
       (w \<noteq> e \<and> n \<noteq> s \<and> - 90 \<le> n \<and> n \<le> 90 \<and> - 90 \<le> s \<and> s \<le> 90 \<longrightarrow>
          (\<forall>j<length (lat ds). \<forall>i<length (lon ds). 0 < emi_area g ! j ! i) \<and>
          (0 < length (lat ds) \<and> 0 < length (lon ds) \<longrightarrow>
             (\<Sum>row\<leftarrow>emi_area g. sum_list row) =
               2 * pi * 6370000\<^sup>2 * \<bar>sin (n * pi / 180) - sin (s * pi / 180)\<bar> *
               (\<bar>w - e\<bar> / 360))))) \<and>
   length (area_loop lon_b lat_b) = length lat_b - 1 \<and>
   (j < length lat_b - 1 \<and> i < length lon_b - 1 \<longrightarrow>
      area_loop lon_b lat_b ! j ! i =
        \<bar>2 * pi * 6370000\<^sup>2 * (1 - sin (lat_b ! j * pi / 180)) -
         2 * pi * 6370000\<^sup>2 * (1 - sin (lat_b ! (j + 1) * pi / 180))\<bar> *
        \<bar>lon_b ! i - lon_b ! (i + 1)\<bar> / 360) \<and>
   (valid_partition lon_b lat_b \<longrightarrow>
      (\<forall>j<length lat_b - 1. \<forall>i<length lon_b - 1. 0 < area_loop lon_b lat_b ! j ! i) \<and>
      (\<Sum>row\<leftarrow>area_loop lon_b lat_b. sum_list row) = band_area lon_b lat_b)"
proof (intro conjI impI)
  assume "attrs ds ''grid_westb'' = Some (Numeric w) \<and> attrs ds ''grid_eastb'' = Some (Numeric e) \<and>
    attrs ds ''grid_northb'' = Some (Numeric n) \<and> attrs ds ''grid_southb'' = Some (Numeric s)"
  then show "\<exists>g. calc_area ds = Inr g \<and>
       emi_lon_b g = linspace w e (length (lon ds) + 1) \<and>
       emi_lat_b g = linspace n s (length (lat ds) + 1) \<and>
       length (emi_area g) = length (lat ds) \<and>
       (\<forall>j<length (lat ds). length (emi_area g ! j) = length (lon ds) \<and>
          (\<forall>i<length (lon ds). emi_area g ! j ! i =
             \<bar>2 * pi * 6370000\<^sup>2 *
                (1 - sin ((n + real j * (s - n) / real (length (lat ds))) * pi / 180)) -
              2 * pi * 6370000\<^sup>2 *
                (1 - sin ((n + real (j + 1) * (s - n) / real (length (lat ds))) * pi / 180))\<bar> *
             \<bar>(w + real i * (e - w) / real (length (lon ds))) -
              (w + real (i + 1) * (e - w) / real (length (lon ds)))\<bar> / 360)) \<and>
       (w \<noteq> e \<and> n \<noteq> s \<and> - 90 \<le> n \<and> n \<le> 90 \<and> - 90 \<le> s \<and> s \<le> 90 \<longrightarrow>
          (\<forall>j<length (lat ds). \<forall>i<length (lon ds). 0 < emi_area g ! j ! i) \<and>
          (0 < length (lat ds) \<and> 0 < length (lon ds) \<longrightarrow>
             (\<Sum>row\<leftarrow>emi_area g. sum_list row) =
               2 * pi * 6370000\<^sup>2 * \<bar>sin (n * pi / 180) - sin (s * pi / 180)\<bar> *
               (\<bar>w - e\<bar> / 360)))"
    using calc_area_cells[of ds w e n s] by blast
next
  show "length (area_loop lon_b lat_b) = length lat_b - 1"
    by (rule length_area_loop)
next
  assume "j < length lat_b - 1 \<and> i < length lon_b - 1"
  then show "area_loop lon_b lat_b ! j ! i =
        \<bar>2 * pi * 6370000\<^sup>2 * (1 - sin (lat_b ! j * pi / 180)) -
         2 * pi * 6370000\<^sup>2 * (1 - sin (lat_b ! (j + 1) * pi / 180))\<bar> *
        \<bar>lon_b ! i - lon_b ! (i + 1)\<bar> / 360"
    using area_loop_nth[of j lat_b i lon_b] by (simp only: cell_area_formula)
next
  assume "valid_partition lon_b lat_b"
  then show "\<forall>j<length lat_b - 1. \<forall>i<length lon_b - 1. 0 < area_loop lon_b lat_b ! j ! i"
    using area_loop_positive[of lon_b lat_b] by blast
next
  assume "valid_partition lon_b lat_b"
  then show "(\<Sum>row\<leftarrow>area_loop lon_b lat_b. sum_list row) = band_area lon_b lat_b"
    by (rule area_loop_band)
qed

theorem cell_area_spherical_cap_witness:
  "(\<exists>g. calc_area ex_band = Inr g \<and>
      emi_lon_b g = [0, 90, 180] \<and> emi_lat_b g = [90, 30, - 30] \<and>
      emi_area g ! 0 ! 0 = pi * 6370000\<^sup>2 / 4 \<and>
      emi_area g ! 1 ! 1 = pi * 6370000\<^sup>2 / 2 \<and>
      0 < emi_area g ! 1 ! 0 \<and>
      (\<Sum>row\<leftarrow>emi_area g. sum_list row) = 3 * pi * 6370000\<^sup>2 / 2) \<and>
   area_loop [0, 90, 180] [90, 30, - 30] ! 0 ! 1 = pi * 6370000\<^sup>2 / 4 \<and>
   0 < area_loop [0, 90, 180] [90, 30, - 30] ! 1 ! 0 \<and>
   (\<Sum>row\<leftarrow>area_loop [0, 90, 180] [90, 30, - 30]. sum_list row) =
     band_area [0, 90, 180] [90, 30, - 30]"
proof -
  note inst = cell_area_spherical_cap[where ds = ex_band and w = 0 and e = 180 and n = 90
      and s = "- 30" and lon_b = "[0, 90, 180]" and lat_b = "[90, 30, - 30]" and j = 0 and i = 1]
  have at: "attrs ex_band ''grid_westb'' = Some (Numeric 0) \<and>
    attrs ex_band ''grid_eastb'' = Some (Numeric 180) \<and>
    attrs ex_band ''grid_northb'' = Some (Numeric 90) \<and>
    attrs ex_band ''grid_southb'' = Some (Numeric (- 30))"
    by (simp add: ex_band_def)
  have dims: "length (lat ex_band) = 2" "length (lon ex_band) = 2"
    by (simp_all add: ex_band_def)
  have ls: "linspace 0 180 (2 + 1) = [0, 90, 180]" "linspace 90 (- 30) (2 + 1) = [90, 30, - 30]"
    by (simp_all add: linspace_def upt_rec)
  have vp: "valid_partition [0, 90, 180] [90, 30, - 30]"
    by (simp add: valid_partition_def strictly_monotone_def)
  from inst at obtain g where g: "calc_area ex_band = Inr g"
    "emi_lon_b g = linspace 0 180 (length (lon ex_band) + 1)"
    "emi_lat_b g = linspace 90 (- 30) (length (lat ex_band) + 1)"
    and cells: "\<forall>j<length (lat ex_band). length (emi_area g ! j) = length (lon ex_band) \<and>
          (\<forall>i<length (lon ex_band). emi_area g ! j ! i =
             \<bar>2 * pi * 6370000\<^sup>2 *
                (1 - sin ((90 + real j * (- 30 - 90) / real (length (lat ex_band))) * pi / 180)) -
              2 * pi * 6370000\<^sup>2 *
                (1 - sin ((90 + real (j + 1) * (- 30 - 90) / real (length (lat ex_band))) * pi / 180))\<bar> *
             \<bar>(0 + real i * (180 - 0) / real (length (lon ex_band))) -
              (0 + real (i + 1) * (180 - 0) / real (length (lon ex_band)))\<bar> / 360)"
    and part: "(0::real) \<noteq> 180 \<and> (90::real) \<noteq> - 30 \<and> - 90 \<le> (90::real) \<and> (90::real) \<le> 90 \<and>
          - 90 \<le> (- 30::real) \<and> (- 30::real) \<le> 90 \<longrightarrow>
          (\<forall>j<length (lat ex_band). \<forall>i<length (lon ex_band). 0 < emi_area g ! j ! i) \<and>
          (0 < length (lat ex_band) \<and> 0 < length (lon ex_band) \<longrightarrow>
             (\<Sum>row\<leftarrow>emi_area g. sum_list row) =
               2 * pi * 6370000\<^sup>2 * \<bar>sin (90 * pi / 180) - sin (- 30 * pi / 180)\<bar> *
               (\<bar>0 - 180\<bar> / 360))"
    by blast
  have b: "emi_lon_b g = [0, 90, 180]" "emi_lat_b g = [90, 30, - 30]"
    using g(2,3) ls by (simp_all add: dims)
  have c00: "emi_area g ! 0 ! 0 = pi * 6370000\<^sup>2 / 4"
    using cells[rule_format, of 0, THEN conjunct2, rule_format, of 0]
    by (simp add: dims sin_30)
  have c11: "emi_area g ! 1 ! 1 = pi * 6370000\<^sup>2 / 2"
    using cells[rule_format, of 1, THEN conjunct2, rule_format, of 1]
    by (simp add: dims sin_30)
  have pos: "0 < emi_area g ! 1 ! 0"
    using part by (simp add: dims)
  have tot: "(\<Sum>row\<leftarrow>emi_area g. sum_list row) = 3 * pi * 6370000\<^sup>2 / 2"
    using part by (simp add: dims sin_30)
  have gen: "area_loop [0, 90, 180] [90, 30, - 30] ! 0 ! 1 = pi * 6370000\<^sup>2 / 4"
    using inst by (simp add: sin_30)
  have gen2: "0 < area_loop [0, 90, 180] [90, 30, - 30] ! 1 ! 0"
    "(\<Sum>row\<leftarrow>area_loop [0, 90, 180] [90, 30, - 30]. sum_list row) =
       band_area [0, 90, 180] [90, 30, - 30]"
    using inst vp by simp_all
  show ?thesis
    using g(1) b c00 c11 pos tot gen gen2 by blast
qed

lemma linspace_const_nth:
  assumes "k < num"
  shows "linspace a a num ! k = a"
  using assms by (cases "num = 1") (auto simp: linspace_def)

lemma area_loop_degenerate:
  assumes "w = e \<or> n = s" "row \<in> set (area_loop (linspace w e nx) (linspace n s ny))"
    "a \<in> set row"
  shows "a = 0"
proof -
  let ?lon_b = "linspace w e nx" and ?lat_b = "linspace n s ny"
  from assms(2) obtain j where j: "j < ny - 1"
    "row = map (\<lambda>i. cell_area (?lon_b ! i) (?lon_b ! (i + 1)) (?lat_b ! j) (?lat_b ! (j + 1)))
               [0..<nx - 1]"
    by (auto simp: area_loop_def Let_def length_linspace)
  from assms(3) j(2) obtain i where i: "i < nx - 1"
    "a = cell_area (?lon_b ! i) (?lon_b ! (i + 1)) (?lat_b ! j) (?lat_b ! (j + 1))"
    by auto
  from assms(1) show ?thesis
  proof
    assume "w = e"
    then have "?lon_b ! i = ?lon_b ! (i + 1)"
      using i(1) linspace_const_nth[of i nx e] linspace_const_nth[of "i + 1" nx e] by simp
    then show ?thesis using i(2) by (simp add: cell_area_degenerate)
  next
    assume "n = s"
    then have "?lat_b ! j = ?lat_b ! (j + 1)"
      using j(1) linspace_const_nth[of j ny s] linspace_const_nth[of "j + 1" ny s] by simp
    then show ?thesis using i(2) by (simp add: cell_area_degenerate)
  qed
qed

lemma calc_area_total:
  assumes "attrs ds ''grid_westb'' = Some (Numeric w)" "attrs ds ''grid_eastb'' = Some (Numeric e)"
    "attrs ds ''grid_northb'' = Some (Numeric n)" "attrs ds ''grid_southb'' = Some (Numeric s)"
  shows "\<exists>g. calc_area ds = Inr g \<and> length (emi_area g) = length (lat ds) \<and>
           (\<forall>row\<in>set (emi_area g). length row = length (lon ds)) \<and>
           (w = e \<or> n = s \<longrightarrow> (\<forall>row\<in>set (emi_area g). \<forall>a\<in>set row. a = 0))"
proof -
  define lon_b where "lon_b = linspace w e (length (lon ds) + 1)"
  define lat_b where "lat_b = linspace n s (length (lat ds) + 1)"
  have "calc_area ds =
          Inr \<lparr>emi_lon_b = lon_b, emi_lat_b = lat_b, emi_area = area_loop lon_b lat_b\<rparr>"
    using calc_area_grid[OF assms] by (simp add: lon_b_def lat_b_def)
  moreover have "length (area_loop lon_b lat_b) = length (lat ds)"
    by (simp add: length_area_loop lat_b_def length_linspace)
  moreover have "\<forall>row\<in>set (area_loop lon_b lat_b). length row = length (lon ds)"
    using area_loop_rows[of _ lon_b lat_b] by (simp add: lon_b_def length_linspace)
  moreover have "\<forall>row\<in>set (area_loop lon_b lat_b). \<forall>a\<in>set row. a = 0" if "w = e \<or> n = s"
    using area_loop_degenerate[OF that] unfolding lon_b_def lat_b_def by blast
  ultimately show ?thesis by simp
qed

text \<open>
  C8, as stated, fails: on a grid whose only cell has equal west and east bounds,
  \<^verbatim>\<open>calc_area\<close> reports no error and returns the area field \<open>[[0]]\<close>.
\<close>

theorem calc_area_degenerate_counterexample:
  "calc_area ex_degenerate =
     Inr \<lparr>emi_lon_b = [5, 5], emi_lat_b = [1, 0], emi_area = [[0]]\<rparr>"
  by (simp add: calc_area_def float_attr_def to_float_def ex_degenerate_def getitem_def
      linspace_def Let_def upt_rec area_loop_def cell_area_def)

text \<open>
  C8, amended. \<^verbatim>\<open>calc_area\<close> makes no check of the bounds. With the four bound
  attributes readable as numbers it returns an area field with one value for every cell
  of the grid, also when cells are degenerate: a cell whose longitude bounds or whose
  latitude bounds coincide gets the area 0, so with equal west and east bounds, or equal
  north and south bounds, every area is 0.
\<close>

theorem calc_area_no_bounds_check:
  "(attrs ds ''grid_westb'' = Some (Numeric w) \<and> attrs ds ''grid_eastb'' = Some (Numeric e) \<and>
    attrs ds ''grid_northb'' = Some (Numeric n) \<and> attrs ds ''grid_southb'' = Some (Numeric s) \<longrightarrow>
      (\<exists>g. calc_area ds = Inr g \<and> length (emi_area g) = length (lat ds) \<and>
           (\<forall>row\<in>set (emi_area g). length row = length (lon ds)) \<and>
           (w = e \<or> n = s \<longrightarrow> (\<forall>row\<in>set (emi_area g). \<forall>a\<in>set row. a = 0)))) \<and>
   (lonw = lone \<or> latn = lats \<longrightarrow> cell_area lonw lone latn lats = 0)"
  using calc_area_total[of ds w e n s] cell_area_degenerate[of lonw lone latn lats]
  by blast

theorem calc_area_no_bounds_check_witness:
  "(\<exists>g. calc_area ex_degenerate = Inr g \<and> length (emi_area g) = 1 \<and>
        emi_area g ! 0 ! 0 = 0) \<and>
   cell_area 5 5 1 0 = 0"
proof -
  note inst = calc_area_no_bounds_check[where ds = ex_degenerate and w = 5 and e = 5 and n = 1
      and s = 0 and lonw = 5 and lone = 5 and latn = 1 and lats = 0]
  have at: "attrs ex_degenerate ''grid_westb'' = Some (Numeric 5) \<and>
    attrs ex_degenerate ''grid_eastb'' = Some (Numeric 5) \<and>
    attrs ex_degenerate ''grid_northb'' = Some (Numeric 1) \<and>
    attrs ex_degenerate ''grid_southb'' = Some (Numeric 0)"
    by (simp add: ex_degenerate_def)
  have dims: "length (lat ex_degenerate) = 1" "length (lon ex_degenerate) = 1"
    by (simp_all add: ex_degenerate_def)
  from inst at obtain g where g: "calc_area ex_degenerate = Inr g"
    "length (emi_area g) = length (lat ex_degenerate)"
    "\<forall>row\<in>set (emi_area g). length row = length (lon ex_degenerate)"
    "\<forall>row\<in>set (emi_area g). \<forall>a\<in>set row. a = 0"
    by auto
  have r: "emi_area g ! 0 \<in> set (emi_area g)"
    using g(2) dims by simp
  then have "emi_area g ! 0 ! 0 \<in> set (emi_area g ! 0)"
    using g(3) dims by simp
  then have z: "emi_area g ! 0 ! 0 = 0"
    using g(4) r by blast
  have "cell_area 5 5 1 0 = 0" using inst by simp
  then show ?thesis using g(1,2) dims z by auto
qed

section \<open>The hourly factor table\<close>

lemma foldl_fadd_Fin: "foldl fadd (Fin a) (map Fin xs) = Fin (a + sum_list xs)"
  by (induction xs arbitrary: a) (simp_all add: add.assoc)

lemma nansum_Fin: "nansum (map Fin xs) = Fin (sum_list xs)"
proof -
  have "map (\<lambda>x. if x = NaN then Fin 0 else x) (map Fin xs) = map Fin xs"
    by (induction xs) simp_all
  then have "nansum (map Fin xs) = foldl fadd (Fin 0) (map Fin xs)"
    unfolding nansum_def by (simp only:)
  then show ?thesis
    by (simp only: foldl_fadd_Fin add_0)
qed

lemma column_Fin:
  assumes "list_all (\<lambda>r. c < length r) raw"
  shows "column c (map (map Fin) raw) = map Fin (map (\<lambda>r. r ! c) raw)"
  using assms by (induction raw) (simp_all add: column_def)

lemma length_normalize_table [simp]: "length (normalize_table rows) = length rows"
  by (simp add: normalize_table_def)

lemma normalize_table_nth:
  assumes "h < length rows" "c < 5" "c < length (rows ! h)"
  shows "normalize_table rows ! h ! c =
           fdiv (rows ! h ! c) (fdiv (nansum (column c rows)) (Fin 24))"
  using assms by (simp add: normalize_table_def Let_def)

lemma length_normalize_row:
  assumes "h < length rows"
  shows "length (normalize_table rows ! h) = min (length (rows ! h)) 5"
  using assms by (simp add: normalize_table_def Let_def)

lemma normalize_Fin_nth:
  assumes "list_all (\<lambda>r. length r = 5) raw" "h < length raw" "c < 5"
    "(\<Sum>r\<leftarrow>raw. r ! c) \<noteq> 0"
  shows "normalize_table (map (map Fin) raw) ! h ! c =
           Fin (raw ! h ! c / ((\<Sum>r\<leftarrow>raw. r ! c) / 24))"
proof -
  have len: "length (raw ! h) = 5" using assms(1,2) by (simp add: list_all_length)
  have all: "list_all (\<lambda>r. c < length r) raw"
    using assms(1,3) by (simp add: list_all_length)
  have "normalize_table (map (map Fin) raw) ! h ! c =
          fdiv (Fin (raw ! h ! c)) (fdiv (nansum (column c (map (map Fin) raw))) (Fin 24))"
    using assms(2,3) len by (simp add: normalize_table_nth)
  also have "\<dots> = fdiv (Fin (raw ! h ! c)) (fdiv (Fin (\<Sum>r\<leftarrow>raw. r ! c)) (Fin 24))"
    by (simp only: column_Fin[OF all] nansum_Fin)
  also have "\<dots> = Fin (raw ! h ! c / ((\<Sum>r\<leftarrow>raw. r ! c) / 24))"
    using assms(4) by simp
  finally show ?thesis .
qed

lemma normalize_Fin_column:
  assumes "list_all (\<lambda>r. length r = 5) raw" "c < 5" "(\<Sum>r\<leftarrow>raw. r ! c) \<noteq> 0"
  shows "column c (normalize_table (map (map Fin) raw)) =
           map Fin (map (\<lambda>r. r ! c / ((\<Sum>r\<leftarrow>raw. r ! c) / 24)) raw)"
proof (rule nth_equalityI)
  show "length (column c (normalize_table (map (map Fin) raw))) =
        length (map Fin (map (\<lambda>r. r ! c / ((\<Sum>r\<leftarrow>raw. r ! c) / 24)) raw))"
    by (simp add: column_def)
next
  fix h assume "h < length (column c (normalize_table (map (map Fin) raw)))"
  then have h: "h < length raw" by (simp add: column_def)
  then show "column c (normalize_table (map (map Fin) raw)) ! h =
      map Fin (map (\<lambda>r. r ! c / ((\<Sum>r\<leftarrow>raw. r ! c) / 24)) raw) ! h"
    using normalize_Fin_nth[OF assms(1) h assms(2,3)] by (simp add: column_def)
qed

lemma normalize_Fin_mean:
  assumes "length raw = 24" "list_all (\<lambda>r. length r = 5) raw" "c < 5"
    "(\<Sum>r\<leftarrow>raw. r ! c) \<noteq> 0"
  shows "fdiv (nansum (column c (normalize_table (map (map Fin) raw)))) (Fin 24) = Fin 1"
proof -
  define S where "S = (\<Sum>r\<leftarrow>raw. r ! c)"
  have "(\<Sum>r\<leftarrow>raw. r ! c / (S / 24)) = (\<Sum>r\<leftarrow>raw. r ! c) / (S / 24)"
    by (induction raw) (simp_all add: add_divide_distrib)
  then have "(\<Sum>r\<leftarrow>raw. r ! c / (S / 24)) = 24"
    using assms(4) by (simp add: S_def)
  then have "nansum (map Fin (map (\<lambda>r. r ! c / (S / 24)) raw)) = Fin 24"
    by (simp only: nansum_Fin)
  then have "nansum (column c (normalize_table (map (map Fin) raw))) = Fin 24"
    using normalize_Fin_column[OF assms(2,3,4)] by (simp only: S_def)
  then show ?thesis by simp
qed


lemma normalize_Fin_entry:
  assumes "list_all (\<lambda>r. length r = 5) raw" "h < length raw" "c < 5"
  shows "normalize_table (map (map Fin) raw) ! h ! c =
           fdiv (Fin (raw ! h ! c)) (fdiv (Fin (\<Sum>r\<leftarrow>raw. r ! c)) (Fin 24))"
proof -
  have len: "length (raw ! h) = 5" using assms(1,2) by (simp add: list_all_length)
  have all: "list_all (\<lambda>r. c < length r) raw"
    using assms(1,3) by (simp add: list_all_length)
  have "normalize_table (map (map Fin) raw) ! h ! c =
          fdiv (Fin (raw ! h ! c)) (fdiv (nansum (column c (map (map Fin) raw))) (Fin 24))"
    using assms(2,3) len by (simp add: normalize_table_nth)
  then show ?thesis
    by (simp only: column_Fin[OF all] nansum_Fin)
qed

lemma scale_column_shape:
  "list_all (\<lambda>r. length r = 5) raw \<Longrightarrow> list_all (\<lambda>r. length r = 5) (scale_column c \<kappa> raw)"
  by (simp add: scale_column_def list_all_length)

lemma scale_column_nth:
  assumes "h < length raw" "c' < length (raw ! h)"
  shows "scale_column c \<kappa> raw ! h ! c' = (if c' = c then \<kappa> * raw ! h ! c else raw ! h ! c')"
  using assms by (simp add: scale_column_def)

lemma scale_column_sum:
  assumes "list_all (\<lambda>r. length r = 5) raw" "c' < 5"
  shows "(\<Sum>r\<leftarrow>scale_column c \<kappa> raw. r ! c') =
           (if c' = c then \<kappa> * (\<Sum>r\<leftarrow>raw. r ! c) else (\<Sum>r\<leftarrow>raw. r ! c'))"
  using assms
  by (induction raw) (simp_all add: scale_column_def distrib_left)

lemma fdiv_scale:
  assumes "0 < \<kappa>"
  shows "fdiv (Fin (\<kappa> * x)) (fdiv (Fin (\<kappa> * S)) (Fin 24)) =
         fdiv (Fin x) (fdiv (Fin S) (Fin 24))"
  using assms by (simp add: zero_less_mult_iff)

lemma normalize_scale_column:
  assumes "list_all (\<lambda>r. length r = 5) raw" "0 < \<kappa>"
  shows "normalize_table (map (map Fin) (scale_column c \<kappa> raw)) =
         normalize_table (map (map Fin) raw)"
proof (rule nth_equalityI)
  show "length (normalize_table (map (map Fin) (scale_column c \<kappa> raw))) =
        length (normalize_table (map (map Fin) raw))"
    by (simp add: scale_column_def)
next
  fix h assume "h < length (normalize_table (map (map Fin) (scale_column c \<kappa> raw)))"
  then have h: "h < length raw" by (simp add: scale_column_def)
  then have h': "h < length (scale_column c \<kappa> raw)" by (simp add: scale_column_def)
  have len: "length (raw ! h) = 5" using assms(1) h by (simp add: list_all_length)
  have shape: "list_all (\<lambda>r. length r = 5) (scale_column c \<kappa> raw)"
    by (rule scale_column_shape[OF assms(1)])
  have len': "length (scale_column c \<kappa> raw ! h) = 5"
    using shape h' by (simp add: list_all_length)
  show "normalize_table (map (map Fin) (scale_column c \<kappa> raw)) ! h =
        normalize_table (map (map Fin) raw) ! h"
  proof (rule nth_equalityI)
    show "length (normalize_table (map (map Fin) (scale_column c \<kappa> raw)) ! h) =
          length (normalize_table (map (map Fin) raw) ! h)"
      using h h' len len' by (simp add: length_normalize_row)
  next
    fix c' assume "c' < length (normalize_table (map (map Fin) (scale_column c \<kappa> raw)) ! h)"
    then have c': "c' < 5" using h' len' by (simp add: length_normalize_row)
    have "normalize_table (map (map Fin) (scale_column c \<kappa> raw)) ! h ! c' =
            fdiv (Fin (scale_column c \<kappa> raw ! h ! c'))
                 (fdiv (Fin (\<Sum>r\<leftarrow>scale_column c \<kappa> raw. r ! c')) (Fin 24))"
      by (rule normalize_Fin_entry[OF shape h' c'])
    also have "\<dots> = fdiv (Fin (raw ! h ! c')) (fdiv (Fin (\<Sum>r\<leftarrow>raw. r ! c')) (Fin 24))"
    proof (cases "c' = c")
      case True
      then show ?thesis
        using fdiv_scale[OF assms(2)] scale_column_nth[OF h, of c' c \<kappa>]
          scale_column_sum[OF assms(1) c', of c \<kappa>] c' len
        by simp
    next
      case False
      then show ?thesis
        using scale_column_nth[OF h, of c' c \<kappa>] scale_column_sum[OF assms(1) c', of c \<kappa>] c' len
        by simp
    qed
    also have "\<dots> = normalize_table (map (map Fin) raw) ! h ! c'"
      by (rule normalize_Fin_entry[OF assms(1) h c', symmetric])
    finally show "normalize_table (map (map Fin) (scale_column c \<kappa> raw)) ! h ! c' =
                  normalize_table (map (map Fin) raw) ! h ! c'" .
  qed
qed

lemma hourly_table_loaded:
  assumes "length raw = 24" "list_all (\<lambda>r. length r = 5) raw"
  shows "hourly_table (Inr (map (map Fin) raw)) = Inr ([], normalize_table (map (map Fin) raw))"
  using assms by (simp add: hourly_table_def list_all_length)

text \<open>
  C4, amended. A table of 24 rows and five columns of finite numbers is loaded without
  error and normalised: every value of a column is divided by the sum of the column over
  the 24 hours divided by 24. For a column whose sum is not zero, the mean of the 24
  normalised factors is 1, and multiplying the raw column by a positive constant leaves
  the normalised table unchanged.
\<close>

theorem table_normalised_mean_one:
  assumes "length raw = 24" "list_all (\<lambda>r. length r = 5) raw" "c < 5"
    "(\<Sum>r\<leftarrow>raw. r ! c) \<noteq> 0"
  shows "hourly_table (Inr (map (map Fin) raw)) =
           Inr ([], normalize_table (map (map Fin) raw)) \<and>
         (\<forall>h<24. normalize_table (map (map Fin) raw) ! h ! c =
                   Fin (raw ! h ! c / ((\<Sum>r\<leftarrow>raw. r ! c) / 24))) \<and>
         fdiv (nansum (column c (normalize_table (map (map Fin) raw)))) (Fin 24) = Fin 1 \<and>
         (0 < \<kappa> \<longrightarrow>
            normalize_table (map (map Fin) (scale_column c \<kappa> raw)) =
            normalize_table (map (map Fin) raw))"
  using hourly_table_loaded[OF assms(1,2)] normalize_Fin_nth[OF assms(2) _ assms(3,4)]
    normalize_Fin_mean[OF assms] normalize_scale_column[OF assms(2), of \<kappa> c] assms(1)
  by simp

theorem table_normalised_mean_one_witness:
  "hourly_table (Inr (map (map Fin) ex_raw)) =
     Inr ([], normalize_table (map (map Fin) ex_raw)) \<and>
   normalize_table (map (map Fin) ex_raw) ! 0 ! 0 = Fin (1 / 2) \<and>
   normalize_table (map (map Fin) ex_raw) ! 23 ! 0 = Fin (3 / 2) \<and>
   fdiv (nansum (column 0 (normalize_table (map (map Fin) ex_raw)))) (Fin 24) = Fin 1 \<and>
   normalize_table (map (map Fin) (scale_column 0 3 ex_raw)) =
     normalize_table (map (map Fin) ex_raw)"
proof -
  have a: "length ex_raw = 24" by (simp add: ex_raw_def)
  have b: "list_all (\<lambda>r. length r = 5) ex_raw" by (simp add: ex_raw_def list_all_length nth_append)
  have c: "(\<Sum>r\<leftarrow>ex_raw. r ! 0) = 48" by (simp add: ex_raw_def sum_list_replicate)
  have d: "ex_raw ! 0 ! 0 = 1" "ex_raw ! 23 ! 0 = 3" by (simp_all add: ex_raw_def nth_append)
  show ?thesis
    using table_normalised_mean_one[of ex_raw 0 3] a b c d by simp
qed

text \<open>
  C4, as stated, fails: a table whose first column is 0 in every hour is loaded without
  error, and its first column is normalised to 24 times NaN (0 divided by 0). The mean
  of the column is not 1: it is NaN, and 0 when NaN is skipped in the sum.
\<close>

theorem zero_column_counterexample:
  "hourly_table (Inr (map (map Fin) ex_zero_raw)) =
     Inr ([], replicate 24 [NaN, Fin 1, Fin 1, Fin 1, Fin 1]) \<and>
   column 0 (replicate 24 [NaN, Fin 1, Fin 1, Fin 1, Fin 1]) = replicate 24 NaN \<and>
   fdiv (foldl fadd (Fin 0) (replicate 24 NaN)) (Fin 24) = NaN \<and>
   fdiv (nansum (replicate 24 NaN)) (Fin 24) = Fin 0"
proof -
  have shape: "length ex_zero_raw = 24" "list_all (\<lambda>r. length r = 5) ex_zero_raw"
    by (simp_all add: ex_zero_raw_def list_all_length)
  have sums: "(\<Sum>r\<leftarrow>ex_zero_raw. r ! 0) = 0" "(\<Sum>r\<leftarrow>ex_zero_raw. r ! 1) = 24"
    "(\<Sum>r\<leftarrow>ex_zero_raw. r ! 2) = 24" "(\<Sum>r\<leftarrow>ex_zero_raw. r ! 3) = 24"
    "(\<Sum>r\<leftarrow>ex_zero_raw. r ! 4) = 24"
    by (simp_all add: ex_zero_raw_def sum_list_replicate)
  have row: "ex_zero_raw ! h = [0, 1, 1, 1, 1]" if "h < 24" for h
    using that by (simp add: ex_zero_raw_def)
  have "normalize_table (map (map Fin) ex_zero_raw) = replicate 24 [NaN, Fin 1, Fin 1, Fin 1, Fin 1]"
  proof (rule nth_equalityI)
    show "length (normalize_table (map (map Fin) ex_zero_raw)) =
          length (replicate 24 [NaN, Fin 1, Fin 1, Fin 1, Fin 1])"
      using shape(1) by simp
  next
    fix h assume "h < length (normalize_table (map (map Fin) ex_zero_raw))"
    then have h: "h < 24" "h < length ex_zero_raw" using shape(1) by simp_all
    have len: "length (normalize_table (map (map Fin) ex_zero_raw) ! h) = 5"
      using h(2) row[OF h(1)] by (simp add: length_normalize_row)
    have ent: "normalize_table (map (map Fin) ex_zero_raw) ! h ! c =
                 [NaN, Fin 1, Fin 1, Fin 1, Fin 1] ! c" if "c < 5" for c
    proof -
      have "c = 0 \<or> c = 1 \<or> c = 2 \<or> c = 3 \<or> c = 4" using that by auto
      then show ?thesis
        using normalize_Fin_entry[OF shape(2) h(2) that] sums row[OF h(1)] by auto
    qed
    have "normalize_table (map (map Fin) ex_zero_raw) ! h = [NaN, Fin 1, Fin 1, Fin 1, Fin 1]"
      by (rule nth_equalityI) (use len ent in simp_all)
    then show "normalize_table (map (map Fin) ex_zero_raw) ! h =
               replicate 24 [NaN, Fin 1, Fin 1, Fin 1, Fin 1] ! h"
      using h(1) by simp
  qed
  then have a: "hourly_table (Inr (map (map Fin) ex_zero_raw)) =
     Inr ([], replicate 24 [NaN, Fin 1, Fin 1, Fin 1, Fin 1])"
    using hourly_table_loaded[OF shape] by simp
  have b: "column 0 (replicate 24 [NaN, Fin 1, Fin 1, Fin 1, Fin 1]) = replicate 24 NaN"
    by (simp add: column_def)
  have c: "foldl fadd (Fin 0) (replicate 24 NaN) = NaN"
    by (simp add: eval_nat_numeral)
  have "map (\<lambda>x. if x = NaN then Fin 0 else x) (replicate 24 NaN) = map Fin (replicate 24 0)"
    by simp
  then have "nansum (replicate 24 NaN) = Fin (sum_list (replicate 24 0))"
    unfolding nansum_def by (simp only: foldl_fadd_Fin add_0)
  then have d: "fdiv (nansum (replicate 24 NaN)) (Fin 24) = Fin 0"
    by (simp add: sum_list_replicate)
  show ?thesis using a b c d by simp
qed

lemma identity_column:
  assumes "c < 5"
  shows "column c identity_table = map Fin (replicate 24 1)"
  using assms by (simp add: column_def identity_table_def)

lemma identity_mean:
  assumes "c < 5"
  shows "fdiv (nansum (column c identity_table)) (Fin 24) = Fin 1"
proof -
  have "nansum (column c identity_table) = Fin (sum_list (replicate 24 1))"
    by (simp only: identity_column[OF assms] nansum_Fin)
  then show ?thesis by (simp add: sum_list_replicate)
qed


text \<open>
  C9, as stated, fails in the level of the event: the message of the missing table is
  logged with \<^verbatim>\<open>logging.info\<close>, not as a warning.
\<close>

theorem missing_table_level_counterexample:
  "hourly_table (Inl OSError) =
     Inr ([(INFO, ''        hourly_factor.csv does not exist, use 1 instead'')],
          identity_table) \<and>
   INFO \<noteq> WARNING"
  by (simp add: hourly_table_def identity_table_def eval_nat_numeral)

text \<open>
  C9, amended. When reading the factor table raises OSError, loading does not fail: it
  returns the table of 24 rows of five ones, the mean of each of whose columns is 1, and
  logs one message at the level INFO.
\<close>

theorem missing_table_defaults_to_identity:
  "hourly_table (Inl OSError) =
     Inr ([(INFO, ''        hourly_factor.csv does not exist, use 1 instead'')],
          replicate 24 (replicate 5 (Fin 1))) \<and>
   map (\<lambda>c. fdiv (nansum (column c (replicate 24 (replicate 5 (Fin 1))))) (Fin 24))
       [0, 1, 2, 3, 4] = [Fin 1, Fin 1, Fin 1, Fin 1, Fin 1]"
proof -
  have "hourly_table (Inl OSError) =
     Inr ([(INFO, ''        hourly_factor.csv does not exist, use 1 instead'')],
          replicate 24 (replicate 5 (Fin 1)))"
    by (simp add: hourly_table_def eval_nat_numeral)
  then show ?thesis
    using identity_mean by (simp add: identity_table_def)
qed

section \<open>Hourly disaggregation\<close>

lemma add_scaled_nth:
  assumes "h < length acc" "h < length col" "j < length (acc ! h)" "j < length fld"
    "i < length (acc ! h ! j)" "i < length (fld ! j)"
  shows "add_scaled acc fld col ! h ! j ! i = fadd (acc ! h ! j ! i) (fmul (fld ! j ! i) (col ! h))"
  using assms by (simp add: add_scaled_def)

lemma add_scaled_shape:
  assumes "length acc = 24" "list_all (field_shape n m) acc" "length col = 24" "field_shape n m fld"
  shows "length (add_scaled acc fld col) = 24 \<and> list_all (field_shape n m) (add_scaled acc fld col)"
  using assms
  by (auto simp: add_scaled_def field_shape_def list_all_length)

lemma sel_kind_column:
  assumes "index_of k kind = Some c"
  shows "sel_kind table k = Inr (column c table)"
  using assms by (simp add: sel_kind_def)

lemma sum_kinds_cells:
  assumes "length table = 24"
    and "\<forall>k\<in>set ks. \<exists>v. data_vars ds (prefix @ ''_'' @ k) = Some v \<and> vals v = [fld k] \<and>
            field_shape n m (fld k)"
    and "\<forall>k\<in>set ks. index_of k kind = Some (cix k)"
    and "length acc = 24" "list_all (field_shape n m) acc"
  shows "\<exists>out. sum_kinds ds prefix table ks acc = Inr out \<and>
           length out = 24 \<and> list_all (field_shape n m) out \<and>
           (\<forall>h<24. \<forall>j<n. \<forall>i<m. out ! h ! j ! i =
              foldl (\<lambda>a k. fadd a (fmul (fld k ! j ! i) (table ! h ! cix k))) (acc ! h ! j ! i) ks)"
  using assms(2-)
proof (induction ks arbitrary: acc)
  case Nil
  then show ?case by simp
next
  case (Cons k ks)
  obtain v where v: "data_vars ds (prefix @ ''_'' @ k) = Some v" "vals v = [fld k]"
    "field_shape n m (fld k)"
    using Cons.prems(1) by auto
  have ck: "index_of k kind = Some (cix k)" using Cons.prems(2) by simp
  let ?acc = "add_scaled acc (fld k) (column (cix k) table)"
  have lcol: "length (column (cix k) table) = 24" using assms(1) by (simp add: column_def)
  have sh: "length ?acc = 24 \<and> list_all (field_shape n m) ?acc"
    by (rule add_scaled_shape[OF Cons.prems(3,4) lcol v(3)])
  have step: "sum_kinds ds prefix table (k # ks) acc = sum_kinds ds prefix table ks ?acc"
    using v ck by (simp add: getitem_def sel_kind_column squeeze_time_def)
  from Cons.IH[of ?acc] Cons.prems(1,2) sh
  obtain out where out: "sum_kinds ds prefix table ks ?acc = Inr out" "length out = 24"
    "list_all (field_shape n m) out"
    "\<forall>h<24. \<forall>j<n. \<forall>i<m. out ! h ! j ! i =
       foldl (\<lambda>a k. fadd a (fmul (fld k ! j ! i) (table ! h ! cix k))) (?acc ! h ! j ! i) ks"
    by auto
  have cell: "?acc ! h ! j ! i = fadd (acc ! h ! j ! i) (fmul (fld k ! j ! i) (table ! h ! cix k))"
    if "h < 24" "j < n" "i < m" for h j i
  proof -
    have "field_shape n m (acc ! h)" using Cons.prems(3,4) that(1) by (simp add: list_all_length)
    then have "j < length (acc ! h)" "i < length (acc ! h ! j)"
      using that by (simp_all add: field_shape_def list_all_length)
    moreover have "j < length (fld k)" "i < length (fld k ! j)"
      using v(3) that by (simp_all add: field_shape_def list_all_length)
    ultimately show ?thesis
      using that(1) Cons.prems(3) lcol assms(1)
      by (simp add: add_scaled_nth column_def)
  qed
  show ?case
    using step out cell by simp
qed


lemma zeros_shape:
  "length (zeros ds) = 24 \<and> list_all (field_shape (length (lat ds)) (length (lon ds))) (zeros ds)"
  by (simp add: zeros_def field_shape_def list_all_length)

lemma zeros_nth:
  "h < 24 \<Longrightarrow> j < length (lat ds) \<Longrightarrow> i < length (lon ds) \<Longrightarrow> zeros ds ! h ! j ! i = Fin 0"
  by (simp add: zeros_def)

lemma index_of_kind:
  "\<forall>k\<in>set kind. index_of k kind = Some (the (index_of k kind))"
  by (simp add: kind_def)

lemma sum_kinds_kind:
  assumes "length table = 24"
    and "\<forall>k\<in>set kind. \<exists>v. data_vars ds (prefix @ ''_'' @ k) = Some v \<and> vals v = [fld k] \<and>
            field_shape (length (lat ds)) (length (lon ds)) (fld k)"
  shows "\<exists>out. sum_kinds ds prefix table kind (zeros ds) = Inr out \<and>
           (\<forall>h<24. \<forall>j<length (lat ds). \<forall>i<length (lon ds). out ! h ! j ! i =
              fadd (fadd (fadd (fadd (fadd (Fin 0)
                (fmul (fld ''Fires'' ! j ! i) (table ! h ! 0)))
                (fmul (fld ''Industry'' ! j ! i) (table ! h ! 1)))
                (fmul (fld ''Energy'' ! j ! i) (table ! h ! 2)))
                (fmul (fld ''Residential'' ! j ! i) (table ! h ! 3)))
                (fmul (fld ''Traffic'' ! j ! i) (table ! h ! 4)))"
proof -
  from sum_kinds_cells[OF assms(1) assms(2) index_of_kind, of "zeros ds"] zeros_shape[of ds]
  obtain out where out: "sum_kinds ds prefix table kind (zeros ds) = Inr out"
    "\<forall>h<24. \<forall>j<length (lat ds). \<forall>i<length (lon ds). out ! h ! j ! i =
       foldl (\<lambda>a k. fadd a (fmul (fld k ! j ! i) (table ! h ! the (index_of k kind))))
         (zeros ds ! h ! j ! i) kind"
    by blast
  have "out ! h ! j ! i =
              fadd (fadd (fadd (fadd (fadd (Fin 0)
                (fmul (fld ''Fires'' ! j ! i) (table ! h ! 0)))
                (fmul (fld ''Industry'' ! j ! i) (table ! h ! 1)))
                (fmul (fld ''Energy'' ! j ! i) (table ! h ! 2)))
                (fmul (fld ''Residential'' ! j ! i) (table ! h ! 3)))
                (fmul (fld ''Traffic'' ! j ! i) (table ! h ! 4))"
    if "h < 24" "j < length (lat ds)" "i < length (lon ds)" for h j i
  proof -
    have "out ! h ! j ! i =
       foldl (\<lambda>a k. fadd a (fmul (fld k ! j ! i) (table ! h ! the (index_of k kind))))
         (Fin 0) kind"
      using out(2) that zeros_nth[OF that] by simp
    then show ?thesis by (simp add: kind_def eval_nat_numeral)
  qed
  then show ?thesis using out(1) by blast
qed

lemma foldl_fadd_Fin_upt:
  "foldl fadd (Fin a) (map (\<lambda>h. Fin (g h)) [0..<n]) = Fin (a + (\<Sum>h<n. g h))"
proof -
  have "map (\<lambda>h. Fin (g h)) [0..<n] = map Fin (map g [0..<n])" by simp
  then have "foldl fadd (Fin a) (map (\<lambda>h. Fin (g h)) [0..<n]) = Fin (a + sum_list (map g [0..<n]))"
    by (simp only: foldl_fadd_Fin)
  then show ?thesis
    by (simp add: interv_sum_list_conv_sum_set_nat atLeast0LessThan)
qed

lemma column_mean_one:
  assumes "length table = 24" "\<forall>h<24. table ! h ! c = Fin (f h)"
    "fdiv (nansum (column c table)) (Fin 24) = Fin 1"
  shows "(\<Sum>h<24. f h) = 24"
proof -
  have "column c table = map (\<lambda>h. table ! h ! c) [0..<24]"
    unfolding column_def using assms(1) by (intro nth_equalityI) simp_all
  also have "\<dots> = map (\<lambda>h. Fin (f h)) [0..<24]"
    using assms(2) by simp
  finally have "column c table = map Fin (map f [0..<24])" by simp
  then have "nansum (column c table) = Fin (sum_list (map f [0..<24]))"
    by (simp only: nansum_Fin)
  then have "fdiv (Fin (\<Sum>h<24. f h)) (Fin 24) = Fin 1"
    using assms(3) by (simp add: interv_sum_list_conv_sum_set_nat atLeast0LessThan)
  then show ?thesis by simp
qed

lemma daily_mean:
  assumes len: "length table = 24"
    and out: "\<forall>h<24. out ! h ! j ! i =
              fadd (fadd (fadd (fadd (fadd (Fin 0)
                (fmul (fld ''Fires'' ! j ! i) (table ! h ! 0)))
                (fmul (fld ''Industry'' ! j ! i) (table ! h ! 1)))
                (fmul (fld ''Energy'' ! j ! i) (table ! h ! 2)))
                (fmul (fld ''Residential'' ! j ! i) (table ! h ! 3)))
                (fmul (fld ''Traffic'' ! j ! i) (table ! h ! 4))"
    and cells: "\<forall>k\<in>set kind. \<exists>x. fld k ! j ! i = Fin x"
    and fin: "\<forall>h<24. \<forall>c<5. \<exists>f. table ! h ! c = Fin f"
    and mean: "\<forall>c<5. fdiv (nansum (column c table)) (Fin 24) = Fin 1"
  shows "fdiv (daily_total out j i) (Fin 24) = sector_total fld j i"
proof -
  obtain x0 x1 x2 x3 x4 where x:
    "fld ''Fires'' ! j ! i = Fin x0" "fld ''Industry'' ! j ! i = Fin x1"
    "fld ''Energy'' ! j ! i = Fin x2" "fld ''Residential'' ! j ! i = Fin x3"
    "fld ''Traffic'' ! j ! i = Fin x4"
    using cells unfolding kind_def by auto
  define f where "f c h = (case table ! h ! c of Fin y \<Rightarrow> y | _ \<Rightarrow> 0)" for c h
  have tab: "table ! h ! c = Fin (f c h)" if hc: "h < 24" "c < 5" for h c
  proof -
    obtain y where "table ! h ! c = Fin y" using fin hc by blast
    then show ?thesis by (simp add: f_def)
  qed
  have S: "(\<Sum>h<24. f c h) = 24" if "c < 5" for c
    using column_mean_one[OF len, of c "f c"] tab that mean by simp
  define g where "g h = x0 * f 0 h + x1 * f 1 h + x2 * f 2 h + x3 * f 3 h + x4 * f 4 h" for h
  have cell: "out ! h ! j ! i = Fin (g h)" if "h < 24" for h
    using out that x tab[OF that] by (simp add: g_def)
  have "map (\<lambda>h. out ! h ! j ! i) [0..<24] = map (\<lambda>h. Fin (g h)) [0..<24]"
    by (rule map_cong) (use cell in auto)
  then have "daily_total out j i = Fin (0 + (\<Sum>h<24. g h))"
    unfolding daily_total_def by (simp only: foldl_fadd_Fin_upt)
  moreover have "(\<Sum>h<24. g h) = 24 * (x0 + x1 + x2 + x3 + x4)"
  proof -
    have "(\<Sum>h<24. g h) = x0 * (\<Sum>h<24. f 0 h) + x1 * (\<Sum>h<24. f 1 h) +
             x2 * (\<Sum>h<24. f 2 h) + x3 * (\<Sum>h<24. f 3 h) + x4 * (\<Sum>h<24. f 4 h)"
      unfolding g_def by (simp only: sum.distrib sum_distrib_left)
    then show ?thesis
      using S[of 0] S[of 1] S[of 2] S[of 3] S[of 4] by simp
  qed
  moreover have "sector_total fld j i = Fin (x0 + x1 + x2 + x3 + x4)"
    using x by (simp add: sector_total_def kind_def)
  ultimately show ?thesis by simp
qed

lemma ex_fld_vars:
  "\<forall>k\<in>set kind. \<exists>v. data_vars ex_ds (''NOx'' @ ''_'' @ k) = Some v \<and> vals v = [ex_fld k] \<and>
      field_shape (length (lat ex_ds)) (length (lon ex_ds)) (ex_fld k)"
  by (simp add: kind_def ex_ds_def ex_var_def ex_fld_def field_shape_def)

text \<open>
  C2, amended. On a dataset whose five sector variables have one time step each,
  the loop over the sectors returns 24 fields, and the value of hour \<open>h\<close> at a cell is the
  sum, from 0 and in the order of \<^verbatim>\<open>kind\<close>, of the sector's value at the cell times the
  factor of the sector at hour \<open>h\<close>. When the cell is present in all five sectors and the
  24 finite factors of every sector have mean 1, the sum of the 24 hourly values divided
  by 24 (their mean, not their sum) is the sum of the five sector values.
\<close>

theorem hourly_disaggregation:
  assumes "length table = 24"
    and "\<forall>k\<in>set kind. \<exists>v. data_vars ds (prefix @ ''_'' @ k) = Some v \<and> vals v = [fld k] \<and>
            field_shape (length (lat ds)) (length (lon ds)) (fld k)"
  shows "\<exists>out. sum_kinds ds prefix table kind (zeros ds) = Inr out \<and>
           (\<forall>h<24. \<forall>j<length (lat ds). \<forall>i<length (lon ds). out ! h ! j ! i =
              fadd (fadd (fadd (fadd (fadd (Fin 0)
                (fmul (fld ''Fires'' ! j ! i) (table ! h ! 0)))
                (fmul (fld ''Industry'' ! j ! i) (table ! h ! 1)))
                (fmul (fld ''Energy'' ! j ! i) (table ! h ! 2)))
                (fmul (fld ''Residential'' ! j ! i) (table ! h ! 3)))
                (fmul (fld ''Traffic'' ! j ! i) (table ! h ! 4))) \<and>
           (\<forall>j<length (lat ds). \<forall>i<length (lon ds).
              (\<forall>k\<in>set kind. \<exists>x. fld k ! j ! i = Fin x) \<and>
              (\<forall>h<24. \<forall>c<5. \<exists>f. table ! h ! c = Fin f) \<and>
              (\<forall>c<5. fdiv (nansum (column c table)) (Fin 24) = Fin 1) \<longrightarrow>
              fdiv (daily_total out j i) (Fin 24) = sector_total fld j i)"
proof -
  from sum_kinds_kind[OF assms]
  obtain out where out: "sum_kinds ds prefix table kind (zeros ds) = Inr out"
    "\<forall>h<24. \<forall>j<length (lat ds). \<forall>i<length (lon ds). out ! h ! j ! i =
              fadd (fadd (fadd (fadd (fadd (Fin 0)
                (fmul (fld ''Fires'' ! j ! i) (table ! h ! 0)))
                (fmul (fld ''Industry'' ! j ! i) (table ! h ! 1)))
                (fmul (fld ''Energy'' ! j ! i) (table ! h ! 2)))
                (fmul (fld ''Residential'' ! j ! i) (table ! h ! 3)))
                (fmul (fld ''Traffic'' ! j ! i) (table ! h ! 4))"
    by blast
  have "fdiv (daily_total out j i) (Fin 24) = sector_total fld j i"
    if "j < length (lat ds)" "i < length (lon ds)"
      "\<forall>k\<in>set kind. \<exists>x. fld k ! j ! i = Fin x"
      "\<forall>h<24. \<forall>c<5. \<exists>f. table ! h ! c = Fin f"
      "\<forall>c<5. fdiv (nansum (column c table)) (Fin 24) = Fin 1" for j i
    by (rule daily_mean[OF assms(1) _ that(3,4,5)]) (use out(2) that(1,2) in blast)
  then show ?thesis using out by blast
qed

theorem hourly_disaggregation_witness:
  "\<exists>out. sum_kinds ex_ds ''NOx'' identity_table kind (zeros ex_ds) = Inr out \<and>
     out ! 5 ! 1 ! 0 = Fin 10 \<and>
     fdiv (daily_total out 1 0) (Fin 24) = Fin 10"
proof -
  have len: "length identity_table = 24" by (simp add: identity_table_def)
  from hourly_disaggregation[OF len ex_fld_vars]
  obtain out where out: "sum_kinds ex_ds ''NOx'' identity_table kind (zeros ex_ds) = Inr out"
    "\<forall>h<24. \<forall>j<length (lat ex_ds). \<forall>i<length (lon ex_ds). out ! h ! j ! i =
              fadd (fadd (fadd (fadd (fadd (Fin 0)
                (fmul (ex_fld ''Fires'' ! j ! i) (identity_table ! h ! 0)))
                (fmul (ex_fld ''Industry'' ! j ! i) (identity_table ! h ! 1)))
                (fmul (ex_fld ''Energy'' ! j ! i) (identity_table ! h ! 2)))
                (fmul (ex_fld ''Residential'' ! j ! i) (identity_table ! h ! 3)))
                (fmul (ex_fld ''Traffic'' ! j ! i) (identity_table ! h ! 4))"
    "\<forall>j<length (lat ex_ds). \<forall>i<length (lon ex_ds).
              (\<forall>k\<in>set kind. \<exists>x. ex_fld k ! j ! i = Fin x) \<and>
              (\<forall>h<24. \<forall>c<5. \<exists>f. identity_table ! h ! c = Fin f) \<and>
              (\<forall>c<5. fdiv (nansum (column c identity_table)) (Fin 24) = Fin 1) \<longrightarrow>
              fdiv (daily_total out j i) (Fin 24) = sector_total ex_fld j i"
    by blast
  have dims: "1 < length (lat ex_ds)" "0 < length (lon ex_ds)" by (simp_all add: ex_ds_def)
  have "out ! 5 ! 1 ! 0 = Fin 10"
    using out(2) dims by (simp add: ex_fld_def identity_table_def)
  moreover have "\<forall>k\<in>set kind. \<exists>x. ex_fld k ! 1 ! 0 = Fin x"
    by (simp add: kind_def ex_fld_def)
  moreover have "\<forall>h<24. \<forall>c<5. \<exists>f. identity_table ! h ! c = Fin f"
    by (simp add: identity_table_def)
  moreover have "sector_total ex_fld 1 0 = Fin 10"
    by (simp add: sector_total_def kind_def ex_fld_def)
  ultimately show ?thesis
    using out(1,3) dims identity_mean by auto
qed

text \<open>
  C2, as stated, fails in its second half: with the identity table (every mean is 1)
  and the sector values 10, 0, 0, 0, 0 at a cell, every hour has the value 10, so the 24
  hourly values sum to 240, and the sector values to 10.
\<close>

theorem daily_sum_counterexample:
  "sum_kinds ex_ds ''NOx'' identity_table kind (zeros ex_ds) =
     Inr (replicate 24 [[Fin 10, Fin 10], [Fin 10, Fin 10]]) \<and>
   map (\<lambda>c. fdiv (nansum (column c identity_table)) (Fin 24)) [0, 1, 2, 3, 4] =
     [Fin 1, Fin 1, Fin 1, Fin 1, Fin 1] \<and>
   daily_total (replicate 24 [[Fin 10, Fin 10], [Fin 10, Fin 10]]) 0 0 = Fin 240 \<and>
   sector_total ex_fld 0 0 = Fin 10"
proof -
  have a: "sum_kinds ex_ds ''NOx'' identity_table kind (zeros ex_ds) =
     Inr (replicate 24 [[Fin 10, Fin 10], [Fin 10, Fin 10]])"
    by (simp add: kind_def ex_ds_def ex_var_def identity_table_def zeros_def getitem_def
        sel_kind_def column_def squeeze_time_def add_scaled_def eval_nat_numeral)
  have b: "daily_total (replicate 24 [[Fin 10, Fin 10], [Fin 10, Fin 10]]) 0 0 = Fin 240"
  proof -
    have "map (\<lambda>h. replicate 24 [[Fin 10, Fin 10], [Fin 10, Fin 10]] ! h ! 0 ! 0) [0..<24] =
          map (\<lambda>h. Fin 10) [0..<24]"
      by (rule map_cong) auto
    then show ?thesis
      unfolding daily_total_def by (simp only: foldl_fadd_Fin_upt) simp
  qed
  have c: "sector_total ex_fld 0 0 = Fin 10"
    by (simp add: sector_total_def kind_def ex_fld_def)
  show ?thesis using a b c identity_mean by simp
qed

section \<open>Missing values\<close>

lemma fadd_NaN_right [simp]: "fadd x NaN = NaN"
  by (cases x) simp_all

lemma fmul_NaN_right [simp]: "fmul x NaN = NaN"
  by (cases x) simp_all

lemma fdiv_NaN_right [simp]: "fdiv x NaN = NaN"
  by (cases x) simp_all



lemma convert_PM25_NaN [simp]: "convert_PM25 days mw NaN a = NaN"
  by (simp add: convert_PM25_def)















section \<open>The two output windows\<close>

lemma map_nth_take:
  assumes "n \<le> length xs"
  shows "map (\<lambda>i. xs ! i) [0..<n] = take n xs"
  using assms by (intro nth_equalityI) simp_all

lemma map_nth_drop:
  assumes "m + n \<le> length xs"
  shows "map (\<lambda>i. xs ! i) [m..<m + n] = take n (drop m xs)"
  using assms by (intro nth_equalityI) simp_all

lemma isel_first:
  "isel (tindex ! 0) xs = (if 12 \<le> length xs then Inr (take 12 xs) else Inl IndexError)"
proof -
  have "list_all (\<lambda>i. i < length xs) [0..<12] \<longleftrightarrow> 12 \<le> length xs"
    by (auto simp: list_all_iff)
  then show ?thesis
    by (simp add: isel_def tindex_def map_nth_take)
qed

lemma isel_second:
  "isel (tindex ! 1) xs =
     (if 24 \<le> length xs then Inr (take 12 (drop 12 xs)) else Inl IndexError)"
proof -
  have "list_all (\<lambda>i. i < length xs) [12..<24] \<longleftrightarrow> 24 \<le> length xs"
    by (auto simp: list_all_iff)
  moreover have "map (\<lambda>i. xs ! i) [12..<24] = take 12 (drop 12 xs)" if "24 \<le> length xs"
    using map_nth_drop[of 12 12 xs] that by simp
  ultimately show ?thesis
    by (simp add: isel_def tindex_def)
qed

text \<open>
  C6, amended. The two windows are the hour indices 0 to 11 and 12 to 23; they are
  disjoint and cover the 24 hours. A field of at least 24 hours is split into its hours
  0 to 11 and its hours 12 to 23 (hours from 24 on are dropped without an error); the
  second window of a field of fewer than 24 hours and the first window of a field of
  fewer than 12 hours fail with IndexError.
\<close>

theorem split_windows:
  "tindex = [[0..<12], [12..<24]] \<and>
   set (tindex ! 0) \<inter> set (tindex ! 1) = {} \<and>
   set (tindex ! 0) \<union> set (tindex ! 1) = {0..<24} \<and>
   (24 \<le> length d \<longrightarrow>
      isel_Time (tindex ! 0) (Flts d u) = Inr (Flts (take 12 d) u) \<and>
      isel_Time (tindex ! 1) (Flts d u) = Inr (Flts (take 12 (drop 12 d)) u)) \<and>
   (length d < 24 \<longrightarrow> isel_Time (tindex ! 1) (Flts d u) = Inl IndexError) \<and>
   (length d < 12 \<longrightarrow> isel_Time (tindex ! 0) (Flts d u) = Inl IndexError)"
proof -
  have t: "set (tindex ! 0) = {0..<12}" "set (tindex ! 1) = {12..<24}"
    unfolding tindex_def by (simp_all only: nth_Cons_0 nth_Cons_Suc One_nat_def set_upt)
  have c1: "tindex = [[0..<12], [12..<24]]" by (simp only: tindex_def)
  have c2: "set (tindex ! 0) \<inter> set (tindex ! 1) = {}"
    and c3: "set (tindex ! 0) \<union> set (tindex ! 1) = {0..<24}"
    unfolding t by auto
  have c4: "24 \<le> length d \<longrightarrow>
      isel_Time (tindex ! 0) (Flts d u) = Inr (Flts (take 12 d) u) \<and>
      isel_Time (tindex ! 1) (Flts d u) = Inr (Flts (take 12 (drop 12 d)) u)"
    using isel_first[of d] isel_second[of d] by (simp add: isel_Time_def)
  have c5: "length d < 24 \<longrightarrow> isel_Time (tindex ! 1) (Flts d u) = Inl IndexError"
    using isel_second[of d] by (simp add: isel_Time_def)
  have c6: "length d < 12 \<longrightarrow> isel_Time (tindex ! 0) (Flts d u) = Inl IndexError"
    using isel_first[of d] by (simp add: isel_Time_def)
  show ?thesis
    using c1 c2 c3 c4 c5 c6 by blast
qed

theorem split_windows_witness:
  "isel_Time (tindex ! 0) (Flts (ex_hours 24) ''u'') = Inr (Flts (take 12 (ex_hours 24)) ''u'') \<and>
   isel_Time (tindex ! 1) (Flts (ex_hours 24) ''u'') =
     Inr (Flts (take 12 (drop 12 (ex_hours 24))) ''u'') \<and>
   isel_Time (tindex ! 1) (Flts (ex_hours 23) ''u'') = Inl IndexError \<and>
   isel_Time (tindex ! 0) (Flts (ex_hours 11) ''u'') = Inl IndexError"
  using split_windows[of "ex_hours 24" "''u''"] split_windows[of "ex_hours 23" "''u''"]
    split_windows[of "ex_hours 11" "''u''"]
  by (simp add: ex_hours_def)

lemma files_distinct: "files ! 0 \<noteq> files ! 1" "files ! 1 \<noteq> files ! 0"
  by (simp_all add: files_def output_dir_def domain_def)

lemma files_enumerate: "enumerate 0 files = [(0, files ! 0), (1, files ! 1)]"
  by (simp add: files_def)

lemma set_files: "set files = {files ! 0, files ! 1}"
  by (simp add: files_def)

lemma replace_file_present:
  assumes "chemi ''E_NO'' = Some (Flts d1 u1)" "chemi ''E_SO2'' = Some (Flts d2 u2)"
    "24 \<le> length d1" "24 \<le> length d2" "index < 2" "fs file = Some ds"
  shows "replace_files chemi ((index, file) # rest) fs out =
           replace_files chemi rest
             (fs(file \<mapsto> ds(''E_NO'' \<mapsto> Flts (map (\<lambda>t. d1 ! t) (tindex ! index)) u1,
                               ''E_SO2'' \<mapsto> Flts (map (\<lambda>t. d2 ! t) (tindex ! index)) u2))) out"
proof -
  have idx: "list_all (\<lambda>i. i < length d1) (tindex ! index)"
    "list_all (\<lambda>i. i < length d2) (tindex ! index)"
    using assms(3,4,5) by (auto simp: tindex_def list_all_iff less_Suc_eq numeral_2_eq_2)
  show ?thesis
    using assms(1,2,6) idx by (simp add: getitem_def isel_Time_def isel_def)
qed

lemma replace_file_missing:
  assumes "fs file = None"
  shows "replace_files chemi ((index, file) # rest) fs out =
           replace_files chemi rest fs (out @ [''!!! Please run mozcart.py first !!!''])"
  using assms by simp

lemma replace_var_patches:
  assumes c: "chemi ''E_NO'' = Some (Flts d1 u1)" "chemi ''E_SO2'' = Some (Flts d2 u2)"
    "24 \<le> length d1" "24 \<le> length d2"
  shows "\<exists>fs' out. replace_var chemi fs = Inr (fs', out) \<and>
     (\<forall>index<2. case fs (files ! index) of
          None \<Rightarrow> fs' (files ! index) = None \<and>
                  ''!!! Please run mozcart.py first !!!'' \<in> set out
        | Some ds \<Rightarrow> (\<exists>ds'. fs' (files ! index) = Some ds' \<and>
             ds' ''E_NO'' = Some (Flts (map (\<lambda>t. d1 ! t) (tindex ! index)) u1) \<and>
             ds' ''E_SO2'' = Some (Flts (map (\<lambda>t. d2 ! t) (tindex ! index)) u2) \<and>
             (\<forall>key. key \<noteq> ''E_NO'' \<and> key \<noteq> ''E_SO2'' \<longrightarrow> ds' key = ds key))) \<and>
     (\<forall>p. p \<notin> set files \<longrightarrow> fs' p = fs p)"
proof -
  let ?msg = "''!!! Please run mozcart.py first !!!''"
  let ?patch = "\<lambda>index ds. ds(''E_NO'' \<mapsto> Flts (map (\<lambda>t. d1 ! t) (tindex ! index)) u1,
                               ''E_SO2'' \<mapsto> Flts (map (\<lambda>t. d2 ! t) (tindex ! index)) u2)"
  have two: "(\<forall>index<2. P index) \<longleftrightarrow> P 0 \<and> P 1" for P :: "nat \<Rightarrow> bool"
    by (auto simp: less_Suc_eq numeral_2_eq_2)
  show ?thesis
  proof (cases "fs (files ! 0)")
    case None
    note n0 = this
    show ?thesis
    proof (cases "fs (files ! 1)")
      case None
      have "replace_var chemi fs = Inr (fs, [?msg, ?msg])"
        using n0 None by (simp add: replace_var_def files_enumerate)
      then show ?thesis using n0 None by (auto simp: set_files two)
    next
      case (Some ds1)
      have "replace_var chemi fs = Inr (fs(files ! 1 \<mapsto> ?patch 1 ds1), [?msg])"
        using n0 Some replace_file_present[OF c, of 1 "fs" "files ! 1" ds1 "[]" "[?msg]"]
        by (simp add: replace_var_def files_enumerate)
      then show ?thesis using n0 Some files_distinct by (auto simp: set_files two)
    qed
  next
    case (Some ds0)
    note s0 = this
    show ?thesis
    proof (cases "fs (files ! 1)")
      case None
      have "replace_var chemi fs = Inr (fs(files ! 0 \<mapsto> ?patch 0 ds0), [?msg])"
        using s0 None files_distinct
          replace_file_present[OF c, of 0 "fs" "files ! 0" ds0 "[(1, files ! 1)]" "[]"]
        by (simp add: replace_var_def files_enumerate)
      then show ?thesis using s0 None files_distinct by (auto simp: set_files two)
    next
      case (Some ds1)
      have "replace_var chemi fs =
              Inr (fs(files ! 0 \<mapsto> ?patch 0 ds0, files ! 1 \<mapsto> ?patch 1 ds1), [])"
        using s0 Some files_distinct
          replace_file_present[OF c, of 0 "fs" "files ! 0" ds0 "[(1, files ! 1)]" "[]"]
          replace_file_present[OF c, of 1 "fs(files ! 0 \<mapsto> ?patch 0 ds0)" "files ! 1" ds1 "[]" "[]"]
        by (simp add: replace_var_def files_enumerate)
      then show ?thesis using s0 Some files_distinct by (auto simp: set_files two)
    qed
  qed
qed

lemma replace_var_no_baseline:
  assumes "fs (files ! 0) = None" "fs (files ! 1) = None"
  shows "replace_var chemi fs =
           Inr (fs, [''!!! Please run mozcart.py first !!!'',
                     ''!!! Please run mozcart.py first !!!''])"
  using assms by (simp add: replace_var_def files_enumerate)

lemma ex_chemi_vars:
  "ex_chemi n ''E_NO'' = Some (Flts (ex_hours n) ''mol km-2 hr-1'')"
  "ex_chemi n ''E_SO2'' = Some (Flts (ex_hours n) ''mol km-2 hr-1'')"
  "length (ex_hours n) = n"
  by (simp_all add: ex_chemi_def ex_hours_def)

text \<open>
  C6, as stated, fails: with both baseline files present, \<^verbatim>\<open>replace_var\<close> splits a field
  of 25 hours without any error, writing the hours 0 to 11 and 12 to 23.
\<close>

theorem split_long_field_counterexample:
  "length (ex_hours 25) = 25 \<and>
   replace_var (ex_chemi 25) ex_fs =
     Inr (ex_fs(files ! 0 \<mapsto>
            ex_base(''E_NO'' \<mapsto> Flts (map (\<lambda>t. ex_hours 25 ! t) [0..<12]) ''mol km-2 hr-1'',
                    ''E_SO2'' \<mapsto> Flts (map (\<lambda>t. ex_hours 25 ! t) [0..<12]) ''mol km-2 hr-1''),
                files ! 1 \<mapsto>
            ex_base(''E_NO'' \<mapsto> Flts (map (\<lambda>t. ex_hours 25 ! t) [12..<24]) ''mol km-2 hr-1'',
                    ''E_SO2'' \<mapsto> Flts (map (\<lambda>t. ex_hours 25 ! t) [12..<24]) ''mol km-2 hr-1'')),
          [])"
proof -
  have f: "ex_fs (files ! 0) = Some ex_base" "ex_fs (files ! 1) = Some ex_base"
    using files_distinct by (simp_all add: ex_fs_def)
  have i: "list_all (\<lambda>i. i < length (ex_hours 25)) [0..<12]"
    "list_all (\<lambda>i. i < length (ex_hours 25)) [12..<24]"
    by (simp_all add: ex_chemi_vars list_all_iff)
  have t: "tindex ! 0 = [0..<12]" "tindex ! 1 = [12..<24]"
    unfolding tindex_def by (simp_all only: nth_Cons_0 nth_Cons_Suc One_nat_def)
  have "replace_var (ex_chemi 25) ex_fs =
     Inr (ex_fs(files ! 0 \<mapsto>
            ex_base(''E_NO'' \<mapsto> Flts (map (\<lambda>t. ex_hours 25 ! t) [0..<12]) ''mol km-2 hr-1'',
                    ''E_SO2'' \<mapsto> Flts (map (\<lambda>t. ex_hours 25 ! t) [0..<12]) ''mol km-2 hr-1''),
                files ! 1 \<mapsto>
            ex_base(''E_NO'' \<mapsto> Flts (map (\<lambda>t. ex_hours 25 ! t) [12..<24]) ''mol km-2 hr-1'',
                    ''E_SO2'' \<mapsto> Flts (map (\<lambda>t. ex_hours 25 ! t) [12..<24]) ''mol km-2 hr-1'')),
          [])"
    unfolding replace_var_def files_enumerate replace_files.simps t
    using f i files_distinct
    by (simp add: getitem_def isel_Time_def isel_def ex_chemi_vars(1,2) del: upt_rec_numeral)
  then show ?thesis by (simp add: ex_chemi_vars)
qed

text \<open>
  C7, as stated, fails: when the first baseline file does not exist, \<^verbatim>\<open>replace_var\<close>
  does not fail; it prints a line, patches the second file and returns.
\<close>

theorem missing_baseline_counterexample:
  "ex_fs_second (files ! 0) = None \<and>
   replace_var (ex_chemi 24) ex_fs_second =
     Inr (ex_fs_second(files ! 1 \<mapsto>
            ex_base(''E_NO'' \<mapsto> Flts (map (\<lambda>t. ex_hours 24 ! t) [12..<24]) ''mol km-2 hr-1'',
                    ''E_SO2'' \<mapsto> Flts (map (\<lambda>t. ex_hours 24 ! t) [12..<24]) ''mol km-2 hr-1'')),
          [''!!! Please run mozcart.py first !!!''])"
proof -
  have f: "ex_fs_second (files ! 0) = None" "ex_fs_second (files ! 1) = Some ex_base"
    using files_distinct by (simp_all add: ex_fs_second_def)
  have i: "list_all (\<lambda>i. i < length (ex_hours 24)) [12..<24]"
    by (simp add: ex_chemi_vars list_all_iff)
  have t: "tindex ! 1 = [12..<24]"
    unfolding tindex_def by (simp only: nth_Cons_0 nth_Cons_Suc One_nat_def)
  have "replace_var (ex_chemi 24) ex_fs_second =
     Inr (ex_fs_second(files ! 1 \<mapsto>
            ex_base(''E_NO'' \<mapsto> Flts (map (\<lambda>t. ex_hours 24 ! t) [12..<24]) ''mol km-2 hr-1'',
                    ''E_SO2'' \<mapsto> Flts (map (\<lambda>t. ex_hours 24 ! t) [12..<24]) ''mol km-2 hr-1'')),
          [''!!! Please run mozcart.py first !!!''])"
    unfolding replace_var_def files_enumerate replace_files.simps t
    using f i
    by (simp add: getitem_def isel_Time_def isel_def ex_chemi_vars(1,2) del: upt_rec_numeral)
  then show ?thesis using f(1) by simp
qed

text \<open>
  C7, amended. With \<^verbatim>\<open>E_NO\<close> and \<^verbatim>\<open>E_SO2\<close> fields of at least 24 hours,
  \<^verbatim>\<open>replace_var\<close> returns without error. In a baseline file that exists, \<^verbatim>\<open>E_NO\<close> and
  \<^verbatim>\<open>E_SO2\<close> become the hours of the window of the file (0 to 11 for the first file, 12
  to 23 for the second) and every other variable is unchanged. A baseline file that does
  not exist is not created: a line is printed and the other file is still processed.
  No other file is touched. With neither file present the call returns the file system
  unchanged and the two printed lines, whatever the resampled fields are.
\<close>

theorem merge_patches_species:
  "(chemi ''E_NO'' = Some (Flts dno uno) \<and> chemi ''E_SO2'' = Some (Flts dso uso) \<and>
    24 \<le> length dno \<and> 24 \<le> length dso \<longrightarrow>
    (\<exists>fs' out. replace_var chemi fs = Inr (fs', out) \<and>
       (\<forall>index<2. case fs (files ! index) of
            None \<Rightarrow> fs' (files ! index) = None \<and>
                    ''!!! Please run mozcart.py first !!!'' \<in> set out
          | Some ds \<Rightarrow> (\<exists>ds'. fs' (files ! index) = Some ds' \<and>
               ds' ''E_NO'' = Some (Flts (map (\<lambda>t. dno ! t) (tindex ! index)) uno) \<and>
               ds' ''E_SO2'' = Some (Flts (map (\<lambda>t. dso ! t) (tindex ! index)) uso) \<and>
               (\<forall>key. key \<noteq> ''E_NO'' \<and> key \<noteq> ''E_SO2'' \<longrightarrow> ds' key = ds key))) \<and>
       (\<forall>p. p \<notin> set files \<longrightarrow> fs' p = fs p))) \<and>
   (fsn (files ! 0) = None \<and> fsn (files ! 1) = None \<longrightarrow>
    replace_var chemin fsn =
      Inr (fsn, [''!!! Please run mozcart.py first !!!'',
                 ''!!! Please run mozcart.py first !!!'']))"
  using replace_var_patches[of chemi dno uno dso uso fs] replace_var_no_baseline[of fsn chemin]
  by blast

theorem merge_patches_species_witness:
  "(\<exists>fs' out. replace_var (ex_chemi 24) ex_fs_second = Inr (fs', out) \<and>
      fs' (files ! 0) = None \<and>
      ''!!! Please run mozcart.py first !!!'' \<in> set out \<and>
      (\<exists>ds'. fs' (files ! 1) = Some ds' \<and>
         ds' ''E_NO'' = Some (Flts (map (\<lambda>t. ex_hours 24 ! t) (tindex ! 1)) ''mol km-2 hr-1'') \<and>
         ds' ''E_CO'' = ex_base ''E_CO'')) \<and>
   replace_var (ex_chemi 24) Map.empty =
     Inr (Map.empty, [''!!! Please run mozcart.py first !!!'',
                      ''!!! Please run mozcart.py first !!!''])"
proof -
  let ?msg = "''!!! Please run mozcart.py first !!!''"
  have f: "ex_fs_second (files ! 0) = None" "ex_fs_second (files ! 1) = Some ex_base"
    using files_distinct by (simp_all add: ex_fs_second_def)
  note inst = merge_patches_species[where chemi = "ex_chemi 24" and fs = ex_fs_second
        and dno = "ex_hours 24" and dso = "ex_hours 24" and uno = "''mol km-2 hr-1''"
        and uso = "''mol km-2 hr-1''" and fsn = Map.empty and chemin = "ex_chemi 24"]
  have hyp: "ex_chemi 24 ''E_NO'' = Some (Flts (ex_hours 24) ''mol km-2 hr-1'') \<and>
    ex_chemi 24 ''E_SO2'' = Some (Flts (ex_hours 24) ''mol km-2 hr-1'') \<and>
    24 \<le> length (ex_hours 24) \<and> 24 \<le> length (ex_hours 24)"
    by (simp add: ex_chemi_vars)
  from inst hyp obtain fs' out where r: "replace_var (ex_chemi 24) ex_fs_second = Inr (fs', out)"
    and w: "\<forall>index<2. case ex_fs_second (files ! index) of
            None \<Rightarrow> fs' (files ! index) = None \<and> ?msg \<in> set out
          | Some ds \<Rightarrow> (\<exists>ds'. fs' (files ! index) = Some ds' \<and>
               ds' ''E_NO'' = Some (Flts (map (\<lambda>t. ex_hours 24 ! t) (tindex ! index))
                                   ''mol km-2 hr-1'') \<and>
               ds' ''E_SO2'' = Some (Flts (map (\<lambda>t. ex_hours 24 ! t) (tindex ! index))
                                   ''mol km-2 hr-1'') \<and>
               (\<forall>key. key \<noteq> ''E_NO'' \<and> key \<noteq> ''E_SO2'' \<longrightarrow> ds' key = ds key))"
    by blast
  have w0: "fs' (files ! 0) = None \<and> ?msg \<in> set out"
    using w[rule_format, of 0] f(1) by simp
  have "\<exists>ds'. fs' (files ! 1) = Some ds' \<and>
               ds' ''E_NO'' = Some (Flts (map (\<lambda>t. ex_hours 24 ! t) (tindex ! 1))
                                   ''mol km-2 hr-1'') \<and>
               ds' ''E_SO2'' = Some (Flts (map (\<lambda>t. ex_hours 24 ! t) (tindex ! 1))
                                   ''mol km-2 hr-1'') \<and>
               (\<forall>key. key \<noteq> ''E_NO'' \<and> key \<noteq> ''E_SO2'' \<longrightarrow> ds' key = ex_base key)"
    using w[rule_format, of 1] f(2) by simp
  then obtain ds' where d: "fs' (files ! 1) = Some ds'"
    "ds' ''E_NO'' = Some (Flts (map (\<lambda>t. ex_hours 24 ! t) (tindex ! 1)) ''mol km-2 hr-1'')"
    "\<forall>key. key \<noteq> ''E_NO'' \<and> key \<noteq> ''E_SO2'' \<longrightarrow> ds' key = ex_base key"
    by blast
  have co: "ds' ''E_CO'' = ex_base ''E_CO''"
    using d(3)[rule_format, of "''E_CO''"] by simp
  have e: "replace_var (ex_chemi 24) Map.empty = Inr (Map.empty, [?msg, ?msg])"
    using inst by simp
  show ?thesis
    using r w0 d(1,2) co e by blast
qed

section \<open>The time step\<close>

lemma perdelta_closed_form:
  assumes "0 < delta"
  shows "perdelta cur en delta =
           Some (map (\<lambda>k. cur + int k * delta) [0..<nat ((en - cur) div delta + 1)])"
proof (induction "nat ((en - cur) div delta + 1)" arbitrary: cur)
  case 0
  then have "(en - cur) div delta < 0" by simp
  then have "en - cur < 0"
    using assms by (simp add: neg_imp_zdiv_neg_iff not_le pos_imp_zdiv_neg_iff)
  then have "\<not> cur \<le> en" by simp
  then show ?case
    using 0 by (subst perdelta.simps) simp
next
  case (Suc n)
  then have nn: "0 \<le> (en - cur) div delta" by linarith
  then have le: "cur \<le> en"
    using assms by (simp add: pos_imp_zdiv_nonneg_iff)
  have "(en - (cur + delta)) div delta = (en - cur) div delta - 1"
  proof -
    have "en - (cur + delta) = (en - cur) + (- 1) * delta" by simp
    then have "(en - (cur + delta)) div delta = ((en - cur) + (- 1) * delta) div delta"
      by (simp only:)
    also have "\<dots> = (en - cur) div delta + (- 1)"
      using assms by (subst div_mult_self1) simp_all
    finally show ?thesis by simp
  qed
  then have n: "n = nat ((en - (cur + delta)) div delta + 1)"
    using Suc.hyps(2) by simp
  have ih: "perdelta (cur + delta) en delta =
              Some (map (\<lambda>k. cur + delta + int k * delta) [0..<n])"
    using Suc.hyps(1)[OF n] n by simp
  have "map (\<lambda>k. cur + int k * delta) [0..<Suc n] =
          cur # map (\<lambda>k. cur + delta + int k * delta) [0..<n]"
    by (simp add: map_upt_Suc algebra_simps del: upt_Suc)
  then show ?case
    using le ih Suc.hyps(2)[symmetric]
    by (subst perdelta.simps) simp
qed

lemma perdelta_one_hour: "perdelta st et one_hour = Some (hour_steps st et)"
  unfolding hour_steps_def
  by (rule perdelta_closed_form) (simp add: one_hour_def)

lemma resample_WRF_eq:
  "resample_WRF lib strftime method area self st et delta =
     Some (resample_vars lib method (emi_longitude self, emi_latitude self) area
             (length (hour_steps st et)) (emi self)
             [''Times'' \<mapsto> Strs (map (\<lambda>timstep. take 19 (strftime timstep)) (hour_steps st et))])"
  by (simp add: resample_WRF_def perdelta_one_hour Let_def)

text \<open>
  C10. The result of \<^verbatim>\<open>resample_WRF\<close>, and with it the result of the constructor, is the
  same for any two values of \<open>delta\<close>: the call of \<^verbatim>\<open>perdelta\<close> is made with the step of
  one hour and returns, and the time stamps are those of the steps from \<open>st\<close> to \<open>et\<close>
  one hour apart.
\<close>

theorem output_independent_of_delta:
  "resample_WRF lib strftime method area self st et delta =
     resample_WRF lib strftime method area self st et delta' \<and>
   resample_WRF lib strftime method area self st et delta =
     Some (resample_vars lib method (emi_longitude self, emi_latitude self) area
             (length (hour_steps st et)) (emi self)
             [''Times'' \<mapsto> Strs (map (\<lambda>timstep. take 19 (strftime timstep)) (hour_steps st et))]) \<and>
   vito_init lib strftime method days mm geo csv ds fs st et delta =
     vito_init lib strftime method days mm geo csv ds fs st et delta'"
proof -
  have a: "resample_WRF lib strftime method area' self' st et delta =
           resample_WRF lib strftime method area' self' st et delta'" for area' self'
    by (simp only: resample_WRF_eq)
  have b: "vito_init lib strftime method days mm geo csv ds fs st et delta =
     vito_init lib strftime method days mm geo csv ds fs st et delta'"
    unfolding vito_init_def by (simp only: a)
  show ?thesis
  proof (intro conjI)
    show "resample_WRF lib strftime method area self st et delta =
          resample_WRF lib strftime method area self st et delta'"
      by (rule a)
    show "resample_WRF lib strftime method area self st et delta =
     Some (resample_vars lib method (emi_longitude self, emi_latitude self) area
             (length (hour_steps st et)) (emi self)
             [''Times'' \<mapsto> Strs (map (\<lambda>timstep. take 19 (strftime timstep)) (hour_steps st et))])"
      by (rule resample_WRF_eq)
    show "vito_init lib strftime method days mm geo csv ds fs st et delta =
     vito_init lib strftime method days mm geo csv ds fs st et delta'"
      by (rule b)
  qed
qed

lemma hour_steps_day:
  "hour_steps st (st + 23 * one_hour) = map (\<lambda>k. st + int k * one_hour) [0..<24]"
  by (simp add: hour_steps_def one_hour_def)

end
